theory Spec2Isabelle
  imports Main "HOL-Library.Word"
begin

unbundle bit_operations_syntax

section \<open>Range locks of the SMB server: smb_lock_svc.c\<close>

text \<open>
  A shallow embedding of \<^verbatim>\<open>usr/src/uts/common/fs/smbsrv/smb_lock_svc.c\<close>.
  The node's lock list (\<^verbatim>\<open>node->n_lock_list\<close>, an \<^verbatim>\<open>smb_llist_t\<close>) is a HOL list in list
  order; the C functions that walk it with \<^verbatim>\<open>smb_llist_head\<close> / \<^verbatim>\<open>smb_llist_next\<close> are
  recursive functions over that list. Offsets and lengths are \<^verbatim>\<open>uint64_t\<close>, the timeout and
  the flag words are \<^verbatim>\<open>uint32_t\<close>; their arithmetic wraps as in C.
\<close>

subsection \<open>Data model\<close>

type_synonym uint64_t = "64 word"
type_synonym uint32_t = "32 word"

text \<open>
  The NT status codes that the file returns. The code only compares them for equality.
\<close>

datatype nt_status =
    NT_STATUS_SUCCESS
  | NT_STATUS_LOCK_NOT_GRANTED
  | NT_STATUS_FILE_LOCK_CONFLICT
  | NT_STATUS_RANGE_NOT_LOCKED
  | NT_STATUS_CANCELLED

text \<open>
  \<^verbatim>\<open>l_type\<close>: \<^verbatim>\<open>smb_lock_create\<close>, the only place where a lock record is made, asserts
  \<^verbatim>\<open>locktype == SMB_LOCK_TYPE_READWRITE || locktype == SMB_LOCK_TYPE_READONLY\<close>, and the
  code only compares the field with these two names.
\<close>

datatype smb_lock_type = SMB_LOCK_TYPE_READWRITE | SMB_LOCK_TYPE_READONLY

text \<open>
  The states of a request that \<^verbatim>\<open>smb_lock_wait\<close> names. Any state other than active and
  canceled falls into the \<^verbatim>\<open>default\<close> branch of its switch.
\<close>

datatype smb_req_state =
    SMB_REQ_STATE_ACTIVE
  | SMB_REQ_STATE_WAITING_LOCK
  | SMB_REQ_STATE_CANCELED

text \<open>
  Constants of headers that are not part of the source file. They are taken as a parameter
  of the functions that use them: the two access bits of \<^verbatim>\<open>desired_access\<close>, the bit of
  \<^verbatim>\<open>f_flags\<close> that marks \<^verbatim>\<open>f_llf_pos\<close> as valid, and the bit of \<^verbatim>\<open>l_flags\<close> for a lock that
  waits without a deadline.
\<close>

record smb_defs =
  FILE_READ_DATA :: uint32_t
  FILE_WRITE_DATA :: uint32_t
  SMB_OFLAGS_LLF_POS_VALID :: uint32_t
  SMB_LOCK_FLAG_INDEFINITE :: uint32_t

text \<open>
  A lock record. Pointers to open files are identities (\<^verbatim>\<open>l_file\<close> is compared with
  \<^verbatim>\<open>sr->fid_ofile\<close>), the ids are compared for equality only. The fields \<^verbatim>\<open>l_magic\<close>,
  \<^verbatim>\<open>l_sr\<close>, \<^verbatim>\<open>l_session\<close>, \<^verbatim>\<open>l_end_time\<close>, the mutex, the condition variable,
  \<^verbatim>\<open>l_blocked_by\<close> and \<^verbatim>\<open>l_conflict_list\<close> are not read by any rule of the file and are
  left out: \<^verbatim>\<open>smb_lock_wait\<close> puts the pending lock on the conflict list of the blocking lock
  before it sleeps and takes it off again when it wakes up.
\<close>

record smb_lock =
  l_file :: nat
  l_session_kid :: nat
  l_pid :: nat
  l_uid :: nat
  l_flags :: uint32_t
  l_type :: smb_lock_type
  l_start :: uint64_t
  l_length :: uint64_t

text \<open>
  The request: the fields of \<^verbatim>\<open>sr\<close> that the file reads (\<^verbatim>\<open>s_kid\<close> stands for
  \<^verbatim>\<open>sr->session->s_kid\<close>) and the two that \<^verbatim>\<open>smb_lock_wait\<close> writes.
\<close>

record smb_request =
  fid_ofile :: nat
  s_kid :: nat
  smb_pid :: nat
  smb_uid :: nat
  sr_state :: smb_req_state
  sr_awaiting :: "smb_lock option"

text \<open>
  The open file: \<^verbatim>\<open>f_is_open\<close> is what \<^verbatim>\<open>smb_ofile_is_open(file)\<close> answers.
\<close>

record smb_ofile =
  f_is_open :: bool
  f_flags :: uint32_t
  f_llf_pos :: uint64_t

record smb_node =
  n_lock_list :: "smb_lock list"

subsection \<open>smb\_lock\_range\_overlap\<close>

definition smb_lock_range_overlap :: "smb_lock \<Rightarrow> uint64_t \<Rightarrow> uint64_t \<Rightarrow> bool" where
  "smb_lock_range_overlap lock start length' =
     (if length' = 0 \<or> l_length lock = 0 then False
      else if (if start < l_start lock
               then start + length' > l_start lock
               else start < l_start lock + l_length lock) then True
      else if (if start + length' > l_start lock + l_length lock
               then start < l_start lock + l_length lock
               else start + length' > l_start lock) then True
      else False)"

subsection \<open>smb\_lock\_range\_lckrules\<close>

text \<open>
  The \<^verbatim>\<open>for\<close> loop of \<^verbatim>\<open>smb_lock_range_lckrules\<close> over the lock list, from the lock it
  has reached. It returns the status and what the call leaves in \<^verbatim>\<open>*clockp\<close>: \<open>None\<close> when
  the loop never writes it.
\<close>

fun smb_lock_range_lckrules_loop ::
  "smb_request \<Rightarrow> smb_lock \<Rightarrow> smb_lock list \<Rightarrow> nt_status \<times> smb_lock option" where
  "smb_lock_range_lckrules_loop sr dlock [] = (NT_STATUS_SUCCESS, None)"
| "smb_lock_range_lckrules_loop sr dlock (lock # rest) =
     (if \<not> smb_lock_range_overlap lock (l_start dlock) (l_length dlock)
      then smb_lock_range_lckrules_loop sr dlock rest
      else if l_type lock = SMB_LOCK_TYPE_READONLY \<and> l_type dlock = SMB_LOCK_TYPE_READONLY
      then smb_lock_range_lckrules_loop sr dlock rest
      else if l_type dlock = SMB_LOCK_TYPE_READONLY \<and> \<not> (l_type lock = SMB_LOCK_TYPE_READONLY) \<and>
              (l_file lock = fid_ofile sr \<and> l_session_kid lock = s_kid sr \<and>
               l_pid lock = smb_pid sr \<and> l_uid lock = smb_uid sr)
      then smb_lock_range_lckrules_loop sr dlock rest
      else (NT_STATUS_LOCK_NOT_GRANTED, Some lock))"

definition smb_lock_range_lckrules ::
  "smb_request \<Rightarrow> smb_ofile \<Rightarrow> smb_node \<Rightarrow> smb_lock \<Rightarrow> nt_status \<times> smb_lock option" where
  "smb_lock_range_lckrules sr file node dlock =
     (if \<not> f_is_open file then (NT_STATUS_RANGE_NOT_LOCKED, None)
      else smb_lock_range_lckrules_loop sr dlock (n_lock_list node))"

subsection \<open>smb\_lock\_wait\<close>

text \<open>
  What a call can do: return, stop at an \<^verbatim>\<open>ASSERT\<close> that fails, or stay asleep in
  \<^verbatim>\<open>cv_wait\<close> / \<^verbatim>\<open>cv_timedwait\<close>. The mutexes and the reader/writer locks are not
  modelled: a call runs from one sleep to the next without interference.
\<close>

datatype 'a outcome = Returns 'a | AssertFails | Sleeps

text \<open>
  While the request sleeps it holds neither the lock of the lock list nor the session lock,
  and other requests change the node, the file and the state of the request. One
  \<open>wakeup\<close> is what the request finds when it has woken up and has entered the lock list
  again: whether \<^verbatim>\<open>cv_timedwait\<close> returned -1, the node, the file, and \<^verbatim>\<open>sr->sr_state\<close>.
  The wake-ups that the environment supplies to one call are a list; with none left, the
  request stays asleep.
\<close>

record wakeup =
  w_timedout :: bool
  w_node :: smb_node
  w_file :: smb_ofile
  w_sr_state :: smb_req_state

text \<open>
  Modelled from the spec: the macro \<^verbatim>\<open>SMB_LOCK_INDEFINITE_WAIT\<close> is in a header that is not
  part of the source; the spec says "indefinite wait if the pending record's timeout is
  indefinite", and \<^verbatim>\<open>smb_lock_create\<close> records that in \<^verbatim>\<open>l_flags\<close>.
\<close>

definition SMB_LOCK_INDEFINITE_WAIT :: "smb_defs \<Rightarrow> smb_lock \<Rightarrow> bool" where
  "SMB_LOCK_INDEFINITE_WAIT K lock = (l_flags lock AND SMB_LOCK_FLAG_INDEFINITE K \<noteq> 0)"

definition smb_lock_wait ::
  "smb_defs \<Rightarrow> smb_request \<Rightarrow> smb_node \<Rightarrow> smb_ofile \<Rightarrow> smb_lock \<Rightarrow> smb_lock \<Rightarrow> wakeup list \<Rightarrow>
     (nt_status \<times> smb_request \<times> smb_node \<times> smb_ofile \<times> wakeup list) outcome" where
  "smb_lock_wait K sr node file b_lock c_lock env =
     (if sr_awaiting sr \<noteq> None then AssertFails
      else case sr_state sr of
        SMB_REQ_STATE_ACTIVE \<Rightarrow>
          (case env of
             [] \<Rightarrow> Sleeps
           | w # env' \<Rightarrow>
               (let status = (if SMB_LOCK_INDEFINITE_WAIT K b_lock then NT_STATUS_SUCCESS
                              else if w_timedout w then NT_STATUS_CANCELLED
                              else NT_STATUS_SUCCESS)
                in if w_sr_state w = SMB_REQ_STATE_CANCELED
                   then Returns (NT_STATUS_CANCELLED,
                          sr\<lparr>sr_state := SMB_REQ_STATE_CANCELED, sr_awaiting := None\<rparr>,
                          w_node w, w_file w, env')
                   else Returns (status,
                          sr\<lparr>sr_state := SMB_REQ_STATE_ACTIVE, sr_awaiting := None\<rparr>,
                          w_node w, w_file w, env')))
      | SMB_REQ_STATE_CANCELED \<Rightarrow> Returns (NT_STATUS_CANCELLED, sr, node, file, env)
      | SMB_REQ_STATE_WAITING_LOCK \<Rightarrow> AssertFails)"

subsection \<open>smb\_lock\_range\_ulckrules and smb\_unlock\_range\<close>

text \<open>
  The loop of \<^verbatim>\<open>smb_lock_range_ulckrules\<close>. The pointer that it leaves in \<^verbatim>\<open>*nodelock\<close> is
  the position of the lock in the list; \<open>i\<close> is the position that the loop has reached.
\<close>

fun smb_lock_range_ulckrules_loop ::
  "smb_request \<Rightarrow> uint64_t \<Rightarrow> uint64_t \<Rightarrow> smb_lock list \<Rightarrow> nat \<Rightarrow> nt_status \<times> nat option" where
  "smb_lock_range_ulckrules_loop sr start length' [] i = (NT_STATUS_RANGE_NOT_LOCKED, None)"
| "smb_lock_range_ulckrules_loop sr start length' (lock # rest) i =
     (if start = l_start lock \<and> length' = l_length lock \<and>
         l_file lock = fid_ofile sr \<and> l_session_kid lock = s_kid sr \<and>
         l_pid lock = smb_pid sr \<and> l_uid lock = smb_uid sr
      then (NT_STATUS_SUCCESS, Some i)
      else smb_lock_range_ulckrules_loop sr start length' rest (Suc i))"

definition smb_lock_range_ulckrules ::
  "smb_request \<Rightarrow> smb_node \<Rightarrow> uint64_t \<Rightarrow> uint64_t \<Rightarrow> nt_status \<times> nat option" where
  "smb_lock_range_ulckrules sr node start length' =
     smb_lock_range_ulckrules_loop sr start length' (n_lock_list node) 0"

text \<open>\<^verbatim>\<open>smb_llist_remove\<close> unlinks the lock at that position.\<close>

definition smb_llist_remove :: "smb_lock list \<Rightarrow> nat \<Rightarrow> smb_lock list" where
  "smb_llist_remove locks i = take i locks @ drop (Suc i) locks"

text \<open>
  \<^verbatim>\<open>smb_unlock_range\<close> returns the status and leaves the node. \<^verbatim>\<open>ASSERT(lock == 0)\<close> on the
  failure path is a branch of its own; \<^verbatim>\<open>smb_lock_destroy\<close> frees the record that has been
  taken off the list, which then is in no list.
\<close>

definition smb_unlock_range ::
  "smb_request \<Rightarrow> smb_node \<Rightarrow> uint64_t \<Rightarrow> uint64_t \<Rightarrow> (nt_status \<times> smb_node) outcome" where
  "smb_unlock_range sr node start length' =
     (case smb_lock_range_ulckrules sr node start length' of
        (status, lock) \<Rightarrow>
          if status \<noteq> NT_STATUS_SUCCESS
          then (if lock \<noteq> None then AssertFails else Returns (status, node))
          else (case lock of
                  None \<Rightarrow> AssertFails
                | Some i \<Rightarrow>
                    Returns (status, node\<lparr>n_lock_list := smb_llist_remove (n_lock_list node) i\<rparr>)))"

subsection \<open>smb\_lock\_create\<close>

text \<open>
  \<^verbatim>\<open>kmem_zalloc\<close> gives a record of zeros, so \<^verbatim>\<open>l_flags\<close> starts at 0. The deadline
  \<^verbatim>\<open>l_end_time\<close> is a reading of the clock and only goes into \<^verbatim>\<open>cv_timedwait\<close>, whose answer
  is in the wake-up.
\<close>

definition smb_lock_create ::
  "smb_defs \<Rightarrow> smb_request \<Rightarrow> uint64_t \<Rightarrow> uint64_t \<Rightarrow> smb_lock_type \<Rightarrow> uint32_t \<Rightarrow> smb_lock" where
  "smb_lock_create K sr start length' locktype timeout =
     \<lparr>l_file = fid_ofile sr,
      l_session_kid = s_kid sr,
      l_pid = smb_pid sr,
      l_uid = smb_uid sr,
      l_flags = (if timeout = 0xffffffff then 0 OR SMB_LOCK_FLAG_INDEFINITE K else 0),
      l_type = locktype,
      l_start = start,
      l_length = length'\<rparr>"

subsection \<open>smb\_lock\_range\<close>

text \<open>
  The calls that the \<^verbatim>\<open>for (;;)\<close> loop of \<^verbatim>\<open>smb_lock_range\<close> makes are written to a log, in
  the order in which it makes them. The log is not data of the program; it is there to say how
  often the rules are applied and whether the request waits.
\<close>

datatype lock_call = Call_lckrules | Call_wait

text \<open>
  The loop, lines 410 to 435. The variable \<^verbatim>\<open>clock\<close> is 0 whenever the rules are applied (it
  starts at 0 and is set to 0 again after a wait that succeeds), so what the rules leave in
  it is their second result. \<^verbatim>\<open>ASSERT(node == clock->l_file->f_node)\<close> is about pointers
  that the lock list of one node does not show and is left out.
\<close>

function smb_lock_range_loop ::
  "smb_defs \<Rightarrow> smb_request \<Rightarrow> smb_ofile \<Rightarrow> smb_node \<Rightarrow> smb_lock \<Rightarrow> uint32_t \<Rightarrow> wakeup list \<Rightarrow>
     lock_call list \<Rightarrow>
     (nt_status \<times> smb_request \<times> smb_node \<times> smb_ofile \<times> wakeup list \<times> lock_call list) outcome" where
  "smb_lock_range_loop K sr file node lock timeout env calls =
     (case smb_lock_range_lckrules sr file node lock of
        (result, clock) \<Rightarrow>
          if result = NT_STATUS_CANCELLED \<or> result = NT_STATUS_SUCCESS \<or>
             result = NT_STATUS_RANGE_NOT_LOCKED
          then (if clock \<noteq> None then AssertFails
                else Returns (result, sr, node, file, env, calls @ [Call_lckrules]))
          else if result \<noteq> NT_STATUS_LOCK_NOT_GRANTED then AssertFails
          else (case clock of
                  None \<Rightarrow> AssertFails
                | Some c \<Rightarrow>
                    if timeout = 0
                    then Returns (result, sr, node, file, env, calls @ [Call_lckrules])
                    else (case smb_lock_wait K sr node file lock c env of
                            Returns (result', sr', node', file', env') \<Rightarrow>
                              if result' \<noteq> NT_STATUS_SUCCESS
                              then Returns (result', sr', node', file', env',
                                     calls @ [Call_lckrules, Call_wait])
                              else smb_lock_range_loop K sr' file' node' lock timeout env'
                                     (calls @ [Call_lckrules, Call_wait])
                          | AssertFails \<Rightarrow> AssertFails
                          | Sleeps \<Rightarrow> Sleeps)))"
  by pat_completeness auto
termination
  by (relation "measure (\<lambda>(K, sr, file, node, lock, timeout, env, calls). length env)")
     (auto simp: smb_lock_wait_def Let_def split: if_splits smb_req_state.splits list.splits)

text \<open>
  Lines 444 to 474: the status that a failed request returns. The three tests follow one
  another and each can only replace the status by \<^verbatim>\<open>NT_STATUS_FILE_LOCK_CONFLICT\<close>.
\<close>

definition smb_lock_range_failure_status ::
  "smb_defs \<Rightarrow> nt_status \<Rightarrow> uint32_t \<Rightarrow> smb_lock \<Rightarrow> smb_ofile \<Rightarrow> nt_status" where
  "smb_lock_range_failure_status K result timeout lock file =
     (if result = NT_STATUS_LOCK_NOT_GRANTED
      then (let result1 = (if timeout \<noteq> 0 then NT_STATUS_FILE_LOCK_CONFLICT else result);
                result2 = (if l_start lock \<ge> 0xef000000 \<and>
                              \<not> (l_start lock AND push_bit 63 1 \<noteq> 0)
                           then NT_STATUS_FILE_LOCK_CONFLICT else result1);
                result3 = (if f_flags file AND SMB_OFLAGS_LLF_POS_VALID K \<noteq> 0 \<and>
                              l_start lock = f_llf_pos file
                           then NT_STATUS_FILE_LOCK_CONFLICT else result2)
            in result3)
      else result)"

record lock_range_result =
  r_status :: nt_status
  r_sr :: smb_request
  r_node :: smb_node
  r_file :: smb_ofile
  r_env :: "wakeup list"
  r_calls :: "lock_call list"

text \<open>
  \<^verbatim>\<open>smb_lock_range\<close>: \<open>node\<close> is \<^verbatim>\<open>file->f_node\<close>. The result has the status, the request, the
  node and the file as the call leaves them, the wake-ups that it has not used, and the log
  of its calls.
\<close>

definition smb_lock_range ::
  "smb_defs \<Rightarrow> smb_request \<Rightarrow> smb_ofile \<Rightarrow> smb_node \<Rightarrow> uint64_t \<Rightarrow> uint64_t \<Rightarrow> uint32_t \<Rightarrow>
     smb_lock_type \<Rightarrow> wakeup list \<Rightarrow> lock_range_result outcome" where
  "smb_lock_range K sr file node start length' timeout locktype env =
     (let lock = smb_lock_create K sr start length' locktype timeout in
      case smb_lock_range_loop K sr file node lock timeout env [] of
        Returns (result, sr', node', file', env', calls) \<Rightarrow>
          if result \<noteq> NT_STATUS_SUCCESS
          then Returns
            \<lparr>r_status = smb_lock_range_failure_status K result timeout lock file',
             r_sr = sr',
             r_node = node',
             r_file = file'\<lparr>f_llf_pos := l_start lock,
                            f_flags := f_flags file' OR SMB_OFLAGS_LLF_POS_VALID K\<rparr>,
             r_env = env',
             r_calls = calls\<rparr>
          else Returns
            \<lparr>r_status = result,
             r_sr = sr',
             r_node = node'\<lparr>n_lock_list := n_lock_list node' @ [lock]\<rparr>,
             r_file = file',
             r_env = env',
             r_calls = calls\<rparr>
      | AssertFails \<Rightarrow> AssertFails
      | Sleeps \<Rightarrow> Sleeps)"

subsection \<open>smb\_lock\_range\_access\<close>

fun smb_lock_range_access_loop ::
  "smb_defs \<Rightarrow> smb_request \<Rightarrow> uint64_t \<Rightarrow> uint64_t \<Rightarrow> uint32_t \<Rightarrow> smb_lock list \<Rightarrow> nt_status" where
  "smb_lock_range_access_loop K sr start length' desired_access [] = NT_STATUS_SUCCESS"
| "smb_lock_range_access_loop K sr start length' desired_access (lock # rest) =
     (if \<not> smb_lock_range_overlap lock start length'
      then smb_lock_range_access_loop K sr start length' desired_access rest
      else if l_type lock = SMB_LOCK_TYPE_READONLY \<and> desired_access = FILE_READ_DATA K
      then smb_lock_range_access_loop K sr start length' desired_access rest
      else if l_type lock = SMB_LOCK_TYPE_READWRITE \<and>
              l_session_kid lock = s_kid sr \<and> l_pid lock = smb_pid sr
      then smb_lock_range_access_loop K sr start length' desired_access rest
      else NT_STATUS_FILE_LOCK_CONFLICT)"

definition smb_lock_range_access ::
  "smb_defs \<Rightarrow> smb_request \<Rightarrow> smb_node \<Rightarrow> uint64_t \<Rightarrow> uint64_t \<Rightarrow> uint32_t \<Rightarrow> nt_status outcome" where
  "smb_lock_range_access K sr node start length' desired_access =
     (if desired_access AND NOT (FILE_READ_DATA K OR FILE_WRITE_DATA K) \<noteq> 0 then AssertFails
      else if desired_access AND (FILE_READ_DATA K OR FILE_WRITE_DATA K) = 0 then AssertFails
      else Returns (smb_lock_range_access_loop K sr start length' desired_access (n_lock_list node)))"

section \<open>Statements\<close>

subsection \<open>The rules in the words of the specification\<close>

text \<open>
  Same owner, strictly: the open file, the session, the process and the user all match.
\<close>

definition spec_same_owner :: "smb_request \<Rightarrow> smb_lock \<Rightarrow> bool" where
  "spec_same_owner sr m =
     (l_file m = fid_ofile sr \<and> l_session_kid m = s_kid sr \<and>
      l_pid m = smb_pid sr \<and> l_uid m = smb_uid sr)"

text \<open>
  Grant rules: a member of the lock list is passed over when it does not overlap the
  candidate, when member and candidate are both shared, or when the candidate is shared and
  the member is an exclusive lock of the same owner. Any other member is a conflict.
\<close>

definition spec_grant_skip :: "smb_request \<Rightarrow> smb_lock \<Rightarrow> smb_lock \<Rightarrow> bool" where
  "spec_grant_skip sr dlock m =
     (\<not> smb_lock_range_overlap m (l_start dlock) (l_length dlock) \<or>
      (l_type m = SMB_LOCK_TYPE_READONLY \<and> l_type dlock = SMB_LOCK_TYPE_READONLY) \<or>
      (l_type m = SMB_LOCK_TYPE_READWRITE \<and> l_type dlock = SMB_LOCK_TYPE_READONLY \<and>
       spec_same_owner sr m))"

text \<open>
  Same owner, loosely: only the session and the process match.
\<close>

definition spec_loose_owner :: "smb_request \<Rightarrow> smb_lock \<Rightarrow> bool" where
  "spec_loose_owner sr m = (l_session_kid m = s_kid sr \<and> l_pid m = smb_pid sr)"

text \<open>
  Access check: a member is passed over when it does not overlap the range, when it is
  shared and the desired access is read, or when it is an exclusive lock of the same loose
  owner.
\<close>

definition spec_access_skip ::
  "smb_defs \<Rightarrow> smb_request \<Rightarrow> uint64_t \<Rightarrow> uint64_t \<Rightarrow> uint32_t \<Rightarrow> smb_lock \<Rightarrow> bool" where
  "spec_access_skip K sr start length' desired_access m =
     (\<not> smb_lock_range_overlap m start length' \<or>
      (l_type m = SMB_LOCK_TYPE_READONLY \<and> desired_access = FILE_READ_DATA K) \<or>
      (l_type m = SMB_LOCK_TYPE_READWRITE \<and> spec_loose_owner sr m))"

text \<open>
  Unlock: a member matches a request when start, length and the strict owner are equal.
\<close>

definition spec_unlock_match :: "smb_request \<Rightarrow> uint64_t \<Rightarrow> uint64_t \<Rightarrow> smb_lock \<Rightarrow> bool" where
  "spec_unlock_match sr start length' m =
     (l_start m = start \<and> l_length m = length' \<and> spec_same_owner sr m)"

text \<open>
  The two statuses that report a conflict.
\<close>

definition spec_conflict_status :: "nt_status \<Rightarrow> bool" where
  "spec_conflict_status s = (s = NT_STATUS_LOCK_NOT_GRANTED \<or> s = NT_STATUS_FILE_LOCK_CONFLICT)"

text \<open>
  Status refinement: a conflict becomes \<^verbatim>\<open>FileLockConflict\<close> when the timeout is not 0, when
  the start is at least \<^verbatim>\<open>0xEF000000\<close> with bit 63 clear, or when the marker of the file is valid
  and equals the start.
\<close>

definition spec_refined_status :: "smb_defs \<Rightarrow> uint32_t \<Rightarrow> uint64_t \<Rightarrow> smb_ofile \<Rightarrow> nt_status" where
  "spec_refined_status K timeout start file =
     (if timeout \<noteq> 0 \<or>
         (0xEF000000 \<le> start \<and> \<not> bit start 63) \<or>
         (f_flags file AND SMB_OFLAGS_LLF_POS_VALID K \<noteq> 0 \<and> f_llf_pos file = start)
      then NT_STATUS_FILE_LOCK_CONFLICT else NT_STATUS_LOCK_NOT_GRANTED)"

subsection \<open>What the environment has done by the time a call returns\<close>

text \<open>
  The wake-ups that a call has used are those of its list that it does not give back. The
  node and the file as the other requests have left them are those of the last wake-up used,
  or the ones at the call when it has used none.
\<close>

definition used_wakeups :: "wakeup list \<Rightarrow> wakeup list \<Rightarrow> wakeup list" where
  "used_wakeups env rest = take (length env - length rest) env"

definition node_after :: "smb_node \<Rightarrow> wakeup list \<Rightarrow> smb_node" where
  "node_after node used = (if used = [] then node else w_node (last used))"

definition file_after :: "smb_ofile \<Rightarrow> wakeup list \<Rightarrow> smb_ofile" where
  "file_after file used = (if used = [] then file else w_file (last used))"

subsection \<open>Concrete inputs\<close>

text \<open>
  Values for the header constants, a lock and a request whose four ids are the same number,
  an open and a closed file with no marker, a node, and a wake-up with an open file.
\<close>

definition ex_defs :: smb_defs where
  "ex_defs = \<lparr>FILE_READ_DATA = 1, FILE_WRITE_DATA = 2, SMB_OFLAGS_LLF_POS_VALID = 8,
     SMB_LOCK_FLAG_INDEFINITE = 1\<rparr>"

definition ex_lock :: "nat \<Rightarrow> smb_lock_type \<Rightarrow> uint64_t \<Rightarrow> uint64_t \<Rightarrow> smb_lock" where
  "ex_lock who t s n =
     \<lparr>l_file = who, l_session_kid = who, l_pid = who, l_uid = who, l_flags = 0,
      l_type = t, l_start = s, l_length = n\<rparr>"

definition ex_request :: "nat \<Rightarrow> smb_request" where
  "ex_request who =
     \<lparr>fid_ofile = who, s_kid = who, smb_pid = who, smb_uid = who,
      sr_state = SMB_REQ_STATE_ACTIVE, sr_awaiting = None\<rparr>"

definition ex_file :: smb_ofile where
  "ex_file = \<lparr>f_is_open = True, f_flags = 0, f_llf_pos = 0\<rparr>"

definition ex_closed_file :: smb_ofile where
  "ex_closed_file = \<lparr>f_is_open = False, f_flags = 0, f_llf_pos = 0\<rparr>"

definition ex_node :: "smb_lock list \<Rightarrow> smb_node" where
  "ex_node locks = \<lparr>n_lock_list = locks\<rparr>"

definition ex_wakeup :: "bool \<Rightarrow> smb_lock list \<Rightarrow> smb_req_state \<Rightarrow> wakeup" where
  "ex_wakeup timedout locks st =
     \<lparr>w_timedout = timedout, w_node = ex_node locks, w_file = ex_file, w_sr_state = st\<rparr>"

text \<open>
  A request of session 1 and process 1 with another open file and another user.
\<close>

definition ex_other_handle :: smb_request where
  "ex_other_handle = (ex_request 1)\<lparr>fid_ofile := 7, smb_uid := 9\<rparr>"

text \<open>
  Three wake-ups: the blocking lock has been replaced by another conflicting lock; the wait
  has timed out; nothing is locked any more.
\<close>

definition ex_env :: "wakeup list" where
  "ex_env = [ex_wakeup False [ex_lock 5 SMB_LOCK_TYPE_READWRITE 0 100] SMB_REQ_STATE_WAITING_LOCK,
             ex_wakeup True [ex_lock 5 SMB_LOCK_TYPE_READWRITE 60 1] SMB_REQ_STATE_WAITING_LOCK,
             ex_wakeup False [] SMB_REQ_STATE_WAITING_LOCK]"

section \<open>Auxiliary lemmas\<close>

lemmas ex_simps = ex_defs_def ex_lock_def ex_request_def ex_file_def ex_node_def ex_wakeup_def

subsection \<open>Ranges that do not wrap\<close>

text \<open>
  When neither \<^verbatim>\<open>start + length\<close> wraps around \<open>2 ^ 64\<close>, the four comparisons of
  \<^verbatim>\<open>smb_lock_range_overlap\<close> say that the two intervals intersect.
\<close>

lemma unat_plus_no_wrap:
  "unat (s :: uint64_t) + unat n < 2 ^ 64 \<Longrightarrow> unat (s + n) = unat s + unat n"
  by (simp add: unat_word_ariths)

lemma smb_lock_range_overlap_no_wrap:
  assumes "unat start + unat length' < 2 ^ 64"
    and "unat (l_start lock) + unat (l_length lock) < 2 ^ 64"
  shows "smb_lock_range_overlap lock start length' =
     (length' \<noteq> 0 \<and> l_length lock \<noteq> 0 \<and>
      unat start < unat (l_start lock) + unat (l_length lock) \<and>
      unat (l_start lock) < unat start + unat length')"
proof -
  have z: "(length' = 0) = (unat length' = 0)" "(l_length lock = 0) = (unat (l_length lock) = 0)"
    by (simp_all add: unat_eq_0)
  show ?thesis
    using assms
    by (simp add: smb_lock_range_overlap_def word_less_nat_alt unat_plus_no_wrap z)
qed

lemma smb_lock_range_overlap_sym_no_wrap:
  assumes "unat (l_start a) + unat (l_length a) < 2 ^ 64"
    and "unat (l_start b) + unat (l_length b) < 2 ^ 64"
  shows "smb_lock_range_overlap a (l_start b) (l_length b) =
     smb_lock_range_overlap b (l_start a) (l_length a)"
  using assms by (auto simp: smb_lock_range_overlap_no_wrap)

subsection \<open>The scans\<close>

lemma lckrules_loop_find:
  "smb_lock_range_lckrules_loop sr dlock locks =
     (case find (\<lambda>m. \<not> spec_grant_skip sr dlock m) locks of
        None \<Rightarrow> (NT_STATUS_SUCCESS, None)
      | Some c \<Rightarrow> (NT_STATUS_LOCK_NOT_GRANTED, Some c))"
proof (induction locks)
  case Nil
  show ?case by simp
next
  case (Cons lock rest)
  have t: "(l_type lock \<noteq> SMB_LOCK_TYPE_READONLY) = (l_type lock = SMB_LOCK_TYPE_READWRITE)"
    by (cases "l_type lock") simp_all
  show ?case
    using Cons.IH by (simp add: spec_grant_skip_def spec_same_owner_def t)
qed

lemma lckrules_shape:
  "smb_lock_range_lckrules sr file node dlock = (NT_STATUS_SUCCESS, None) \<or>
   smb_lock_range_lckrules sr file node dlock = (NT_STATUS_RANGE_NOT_LOCKED, None) \<or>
   (\<exists>c. smb_lock_range_lckrules sr file node dlock = (NT_STATUS_LOCK_NOT_GRANTED, Some c))"
  by (simp add: smb_lock_range_lckrules_def lckrules_loop_find split: option.splits)

lemma access_loop_find:
  "smb_lock_range_access_loop K sr start length' desired_access locks =
     (case find (\<lambda>m. \<not> spec_access_skip K sr start length' desired_access m) locks of
        None \<Rightarrow> NT_STATUS_SUCCESS
      | Some c \<Rightarrow> NT_STATUS_FILE_LOCK_CONFLICT)"
  by (induction locks) (auto simp: spec_access_skip_def spec_loose_owner_def)

lemma access_asserts_hold:
  fixes r w :: uint32_t
  assumes "r \<noteq> 0" "w \<noteq> 0" "d = r \<or> d = w"
  shows "d AND NOT (r OR w) = 0" and "d AND (r OR w) \<noteq> 0"
proof -
  show "d AND NOT (r OR w) = 0"
    using assms(3) by (auto simp: bit_eq_iff bit_and_iff bit_not_iff bit_or_iff)
  have "r AND (r OR w) = r" "w AND (r OR w) = w"
    by (auto simp: bit_eq_iff bit_and_iff bit_or_iff)
  then show "d AND (r OR w) \<noteq> 0"
    using assms by auto
qed

lemma ulckrules_loop_none:
  "\<forall>m \<in> set locks. \<not> spec_unlock_match sr start length' m \<Longrightarrow>
   smb_lock_range_ulckrules_loop sr start length' locks i = (NT_STATUS_RANGE_NOT_LOCKED, None)"
  by (induction locks arbitrary: i) (auto simp: spec_unlock_match_def spec_same_owner_def)

lemma ulckrules_loop_some:
  "\<exists>m \<in> set locks. spec_unlock_match sr start length' m \<Longrightarrow>
   \<exists>k. k < length locks \<and> spec_unlock_match sr start length' (locks ! k) \<and>
       (\<forall>j < k. \<not> spec_unlock_match sr start length' (locks ! j)) \<and>
       smb_lock_range_ulckrules_loop sr start length' locks i = (NT_STATUS_SUCCESS, Some (i + k))"
proof (induction locks arbitrary: i)
  case Nil
  then show ?case by simp
next
  case (Cons lock rest)
  show ?case
  proof (cases "spec_unlock_match sr start length' lock")
    case True
    then have "smb_lock_range_ulckrules_loop sr start length' (lock # rest) i = (NT_STATUS_SUCCESS, Some (i + 0))"
      by (auto simp: spec_unlock_match_def spec_same_owner_def)
    with True show ?thesis by (intro exI [of _ 0]) simp
  next
    case False
    with Cons.prems have "\<exists>m \<in> set rest. spec_unlock_match sr start length' m" by auto
    from Cons.IH [OF this, of "Suc i"] obtain k where k: "k < length rest"
      "spec_unlock_match sr start length' (rest ! k)"
      "\<forall>j < k. \<not> spec_unlock_match sr start length' (rest ! j)"
      "smb_lock_range_ulckrules_loop sr start length' rest (Suc i) = (NT_STATUS_SUCCESS, Some (Suc i + k))"
      by blast
    have step: "smb_lock_range_ulckrules_loop sr start length' (lock # rest) i =
        smb_lock_range_ulckrules_loop sr start length' rest (Suc i)"
      using False by (auto simp: spec_unlock_match_def spec_same_owner_def)
    have before: "\<forall>j < Suc k. \<not> spec_unlock_match sr start length' ((lock # rest) ! j)"
      using False k(3) by (auto simp: less_Suc_eq_0_disj)
    show ?thesis
      using k(1,2,4) step before by (intro exI [of _ "Suc k"]) simp
  qed
qed

subsection \<open>The loop of smb\_lock\_range\<close>

lemma msb_test: "((w :: uint64_t) AND push_bit 63 1 \<noteq> 0) = bit w 63"
  by (simp only: push_bit_of_1 and_exp_eq_0_iff_not_bit not_not)

lemma failure_status_conflict:
  "smb_lock_range_failure_status K NT_STATUS_LOCK_NOT_GRANTED timeout lock file =
     (if timeout \<noteq> 0 \<or>
         (0xEF000000 \<le> l_start lock \<and> \<not> bit (l_start lock) 63) \<or>
         (f_flags file AND SMB_OFLAGS_LLF_POS_VALID K \<noteq> 0 \<and> f_llf_pos file = l_start lock)
      then NT_STATUS_FILE_LOCK_CONFLICT else NT_STATUS_LOCK_NOT_GRANTED)"
  unfolding smb_lock_range_failure_status_def Let_def msb_test by auto

lemma failure_status_other:
  "result \<noteq> NT_STATUS_LOCK_NOT_GRANTED \<Longrightarrow>
   smb_lock_range_failure_status K result timeout lock file = result"
  by (simp add: smb_lock_range_failure_status_def)

lemma failure_status_not_success:
  "result \<noteq> NT_STATUS_SUCCESS \<Longrightarrow>
   smb_lock_range_failure_status K result timeout lock file \<noteq> NT_STATUS_SUCCESS"
  by (cases "result = NT_STATUS_LOCK_NOT_GRANTED")
     (simp_all add: failure_status_conflict failure_status_other)

lemma loop_no_timeout:
  "smb_lock_range_loop K sr file node lock 0 env calls =
     Returns (fst (smb_lock_range_lckrules sr file node lock), sr, node, file, env,
       calls @ [Call_lckrules])"
  using lckrules_shape [of sr "file" node lock]
  by (subst smb_lock_range_loop.simps) auto

lemma wait_returns:
  "smb_lock_wait K sr node file b_lock c_lock env = Returns (result, sr', node', file', env') \<Longrightarrow>
   (env' = env \<and> node' = node \<and> file' = file \<and> result = NT_STATUS_CANCELLED) \<or>
   (\<exists>w. env = w # env' \<and> node' = w_node w \<and> file' = w_file w)"
  by (auto simp: smb_lock_wait_def Let_def split: if_splits smb_req_state.splits list.splits)

lemma after_snoc:
  "node_after (w_node w) used = node_after node (w # used)"
  "file_after (w_file w) used = file_after file (w # used)"
  by (simp_all add: node_after_def file_after_def)

lemma loop_uses_wakeups:
  "smb_lock_range_loop K sr file node lock timeout env calls =
     Returns (result, sr', node', file', env', calls') \<Longrightarrow>
   \<exists>used. env = used @ env' \<and> node' = node_after node used \<and> file' = file_after file used"
proof (induction K sr "file" node lock timeout env calls rule: smb_lock_range_loop.induct)
  case (1 K sr fl node lock timeout env calls)
  note shape = lckrules_shape [of sr fl node lock]
  show ?case
  proof (cases "fst (smb_lock_range_lckrules sr fl node lock) = NT_STATUS_LOCK_NOT_GRANTED \<and> timeout \<noteq> 0")
    case False
    with shape "1.prems" have "env' = env \<and> node' = node \<and> file' = fl"
      by (subst (asm) smb_lock_range_loop.simps) (auto split: if_splits)
    then show ?thesis
      by (intro exI [of _ "[]"]) (simp add: node_after_def file_after_def)
  next
    case True
    with shape obtain c where c: "smb_lock_range_lckrules sr fl node lock = (NT_STATUS_LOCK_NOT_GRANTED, Some c)"
      by auto
    from True have t: "timeout \<noteq> 0" by simp
    show ?thesis
    proof (cases "smb_lock_wait K sr node fl lock c env")
      case (Returns x)
      obtain r1 sr1 node1 file1 env1 where x: "x = (r1, sr1, node1, file1, env1)"
        by (cases x) auto
      note w = Returns [unfolded x]
      show ?thesis
      proof (cases "r1 = NT_STATUS_SUCCESS")
        case True
        from wait_returns [OF w] True obtain wk where wk: "env = wk # env1" "node1 = w_node wk" "file1 = w_file wk"
          by auto
        have rec: "smb_lock_range_loop K sr1 file1 node1 lock timeout env1 (calls @ [Call_lckrules, Call_wait]) =
            Returns (result, sr', node', file', env', calls')"
          using "1.prems" c t w True by (subst (asm) smb_lock_range_loop.simps) simp
        have "\<exists>used. env1 = used @ env' \<and> node' = node_after node1 used \<and> file' = file_after file1 used"
          by (rule "1.IH" [OF c [symmetric] _ _ refl t w refl refl refl refl _ rec])
             (simp_all add: True)
        then obtain used where "env1 = used @ env'" "node' = node_after node1 used" "file' = file_after file1 used"
          by auto
        then show ?thesis
          using wk by (intro exI [of _ "wk # used"]) (simp add: after_snoc)
      next
        case False
        have e: "env' = env1 \<and> node' = node1 \<and> file' = file1"
          using "1.prems" c t w False by (subst (asm) smb_lock_range_loop.simps) simp
        from wait_returns [OF w] show ?thesis
        proof
          assume "env1 = env \<and> node1 = node \<and> file1 = fl \<and> r1 = NT_STATUS_CANCELLED"
          with e show ?thesis
            by (intro exI [of _ "[]"]) (simp add: node_after_def file_after_def)
        next
          assume "\<exists>wk. env = wk # env1 \<and> node1 = w_node wk \<and> file1 = w_file wk"
          then obtain wk where "env = wk # env1" "node1 = w_node wk" "file1 = w_file wk"
            by blast
          with e show ?thesis
            by (intro exI [of _ "[wk]"]) (simp add: node_after_def file_after_def)
        qed
      qed
    next
      case AssertFails
      with "1.prems" c t show ?thesis by (subst (asm) smb_lock_range_loop.simps) simp
    next
      case Sleeps
      with "1.prems" c t show ?thesis by (subst (asm) smb_lock_range_loop.simps) simp
    qed
  qed
qed

text \<open>
  A call whose timeout is not 0 waits on every conflict, and \<^verbatim>\<open>smb_lock_wait\<close> returns
  \<^verbatim>\<open>NT_STATUS_SUCCESS\<close> or \<^verbatim>\<open>NT_STATUS_CANCELLED\<close>: its loop never ends with
  \<^verbatim>\<open>NT_STATUS_LOCK_NOT_GRANTED\<close>.
\<close>

lemma wait_status:
  "smb_lock_wait K sr node file b_lock c_lock env = Returns (result, sr', node', file', env') \<Longrightarrow>
   result = NT_STATUS_SUCCESS \<or> result = NT_STATUS_CANCELLED"
  by (auto simp: smb_lock_wait_def Let_def split: if_splits smb_req_state.splits list.splits)

lemma loop_timeout_never_conflict:
  "timeout \<noteq> 0 \<Longrightarrow>
   smb_lock_range_loop K sr file node lock timeout env calls =
     Returns (result, sr', node', file', env', calls') \<Longrightarrow>
   result \<noteq> NT_STATUS_LOCK_NOT_GRANTED"
proof (induction K sr "file" node lock timeout env calls rule: smb_lock_range_loop.induct)
  case (1 K sr fl node lock timeout env calls)
  note shape = lckrules_shape [of sr fl node lock]
  note t = "1.prems"(1)
  note ret = "1.prems"(2)
  show ?case
  proof (cases "fst (smb_lock_range_lckrules sr fl node lock) = NT_STATUS_LOCK_NOT_GRANTED")
    case False
    with shape ret show ?thesis
      by (subst (asm) smb_lock_range_loop.simps) (auto split: if_splits)
  next
    case True
    with shape obtain c where
      c: "smb_lock_range_lckrules sr fl node lock = (NT_STATUS_LOCK_NOT_GRANTED, Some c)"
      by auto
    show ?thesis
    proof (cases "smb_lock_wait K sr node fl lock c env")
      case (Returns x)
      obtain r1 sr1 node1 file1 env1 where x: "x = (r1, sr1, node1, file1, env1)"
        by (cases x) auto
      note w = Returns [unfolded x]
      show ?thesis
      proof (cases "r1 = NT_STATUS_SUCCESS")
        case True
        have rec: "smb_lock_range_loop K sr1 file1 node1 lock timeout env1
            (calls @ [Call_lckrules, Call_wait]) =
            Returns (result, sr', node', file', env', calls')"
          using ret c t w True by (subst (asm) smb_lock_range_loop.simps) simp
        show ?thesis
          by (rule "1.IH" [OF c [symmetric] _ _ refl t w refl refl refl refl _ t rec])
             (simp_all add: True)
      next
        case False
        have "result = r1"
          using ret c t w False by (subst (asm) smb_lock_range_loop.simps) simp
        with wait_status [OF w] False show ?thesis by simp
      qed
    next
      case AssertFails
      with ret c t show ?thesis by (subst (asm) smb_lock_range_loop.simps) simp
    next
      case Sleeps
      with ret c t show ?thesis by (subst (asm) smb_lock_range_loop.simps) simp
    qed
  qed
qed

lemma lock_create_start [simp]:
  "l_start (smb_lock_create K sr start length' locktype timeout) = start"
  by (simp add: smb_lock_create_def)

lemma lock_range_returns:
  assumes "smb_lock_range K sr file node start length' timeout locktype env = Returns res"
  shows "\<exists>result sr' node' file' env' calls.
     smb_lock_range_loop K sr file node (smb_lock_create K sr start length' locktype timeout)
       timeout env [] = Returns (result, sr', node', file', env', calls) \<and>
     res = (if result \<noteq> NT_STATUS_SUCCESS
            then \<lparr>r_status = smb_lock_range_failure_status K result timeout
                     (smb_lock_create K sr start length' locktype timeout) file',
                  r_sr = sr', r_node = node',
                  r_file = file'\<lparr>f_llf_pos := start,
                                 f_flags := f_flags file' OR SMB_OFLAGS_LLF_POS_VALID K\<rparr>,
                  r_env = env', r_calls = calls\<rparr>
            else \<lparr>r_status = NT_STATUS_SUCCESS, r_sr = sr',
                  r_node = node'\<lparr>n_lock_list := n_lock_list node' @
                             [smb_lock_create K sr start length' locktype timeout]\<rparr>,
                  r_file = file', r_env = env', r_calls = calls\<rparr>)"
  using assms
  by (auto simp: smb_lock_range_def Let_def split: outcome.splits if_splits)

lemma used_wakeups_append [simp]: "used_wakeups (used @ rest) rest = used"
  by (simp add: used_wakeups_def)

text \<open>
  For a request that is not waiting for a lock when it calls, no \<^verbatim>\<open>ASSERT\<close> of
  \<^verbatim>\<open>smb_lock_range\<close> or \<^verbatim>\<open>smb_lock_wait\<close> fails: the call returns, or it sleeps for want of
  a wake-up.
\<close>

lemma wait_leaves_request:
  "smb_lock_wait K sr node file b_lock c_lock env =
     Returns (NT_STATUS_SUCCESS, sr', node', file', env') \<Longrightarrow>
   sr_awaiting sr' = None \<and> sr_state sr' = SMB_REQ_STATE_ACTIVE"
  by (auto simp: smb_lock_wait_def Let_def split: if_splits smb_req_state.splits list.splits)

lemma wait_asserts_hold:
  "sr_awaiting sr = None \<Longrightarrow> sr_state sr \<noteq> SMB_REQ_STATE_WAITING_LOCK \<Longrightarrow>
   smb_lock_wait K sr node file b_lock c_lock env \<noteq> AssertFails"
  by (auto simp: smb_lock_wait_def Let_def split: if_splits smb_req_state.splits list.splits)

lemma loop_asserts_hold:
  "sr_awaiting sr = None \<Longrightarrow> sr_state sr \<noteq> SMB_REQ_STATE_WAITING_LOCK \<Longrightarrow>
   smb_lock_range_loop K sr file node lock timeout env calls \<noteq> AssertFails"
proof (induction K sr "file" node lock timeout env calls rule: smb_lock_range_loop.induct)
  case (1 K sr fl node lock timeout env calls)
  note shape = lckrules_shape [of sr fl node lock]
  show ?case
  proof (cases "fst (smb_lock_range_lckrules sr fl node lock) = NT_STATUS_LOCK_NOT_GRANTED \<and> timeout \<noteq> 0")
    case False
    with shape show ?thesis
      by (subst smb_lock_range_loop.simps) auto
  next
    case True
    with shape obtain c where
      c: "smb_lock_range_lckrules sr fl node lock = (NT_STATUS_LOCK_NOT_GRANTED, Some c)"
      by auto
    from True have t: "timeout \<noteq> 0" by simp
    show ?thesis
    proof (cases "smb_lock_wait K sr node fl lock c env")
      case (Returns x)
      obtain r1 sr1 node1 file1 env1 where x: "x = (r1, sr1, node1, file1, env1)"
        by (cases x) auto
      note w = Returns [unfolded x]
      show ?thesis
      proof (cases "r1 = NT_STATUS_SUCCESS")
        case True
        from wait_leaves_request [OF w [unfolded True]]
        have s: "sr_awaiting sr1 = None" "sr_state sr1 \<noteq> SMB_REQ_STATE_WAITING_LOCK" by simp_all
        have "smb_lock_range_loop K sr1 file1 node1 lock timeout env1
            (calls @ [Call_lckrules, Call_wait]) \<noteq> AssertFails"
          by (rule "1.IH" [OF c [symmetric] _ _ refl t w refl refl refl refl _ s])
             (simp_all add: True)
        then show ?thesis
          using c t w True by (subst smb_lock_range_loop.simps) simp
      next
        case False
        then show ?thesis
          using c t w by (subst smb_lock_range_loop.simps) simp
      qed
    next
      case AssertFails
      with wait_asserts_hold [OF "1.prems"] show ?thesis by blast
    next
      case Sleeps
      with c t show ?thesis by (subst smb_lock_range_loop.simps) simp
    qed
  qed
qed

lemma lock_range_asserts_hold:
  "sr_awaiting sr = None \<Longrightarrow> sr_state sr \<noteq> SMB_REQ_STATE_WAITING_LOCK \<Longrightarrow>
   smb_lock_range K sr file node start length' timeout locktype env \<noteq> AssertFails"
  using loop_asserts_hold [of sr K "file" node "smb_lock_create K sr start length' locktype timeout"
      timeout env "[]"]
  by (auto simp: smb_lock_range_def Let_def split: outcome.splits)

subsection \<open>Evaluations\<close>

lemma ex_conflict_rules:
  "smb_lock_range_lckrules (ex_request 2) ex_file
     (ex_node [ex_lock 3 SMB_LOCK_TYPE_READWRITE 0xF0000000 100])
     (smb_lock_create ex_defs (ex_request 2) 0xF0000000 100 SMB_LOCK_TYPE_READONLY 0) =
     (NT_STATUS_LOCK_NOT_GRANTED, Some (ex_lock 3 SMB_LOCK_TYPE_READWRITE 0xF0000000 100))"
  "smb_lock_range_lckrules (ex_request 2) ex_file
     (ex_node [ex_lock 3 SMB_LOCK_TYPE_READWRITE 1000 100])
     (smb_lock_create ex_defs (ex_request 2) 1000 100 SMB_LOCK_TYPE_READONLY 0) =
     (NT_STATUS_LOCK_NOT_GRANTED, Some (ex_lock 3 SMB_LOCK_TYPE_READWRITE 1000 100))"
  by (simp_all add: smb_lock_range_lckrules_def smb_lock_create_def smb_lock_range_overlap_def
        ex_simps)

lemma ex_timed_out:
  "smb_lock_range ex_defs (ex_request 2) ex_file (ex_node [ex_lock 3 SMB_LOCK_TYPE_READWRITE 0 100])
     50 100 5000 SMB_LOCK_TYPE_READWRITE ex_env =
   Returns \<lparr>r_status = NT_STATUS_CANCELLED, r_sr = ex_request 2,
     r_node = ex_node [ex_lock 5 SMB_LOCK_TYPE_READWRITE 60 1],
     r_file = \<lparr>f_is_open = True, f_flags = 8, f_llf_pos = 50\<rparr>,
     r_env = [ex_wakeup False [] SMB_REQ_STATE_WAITING_LOCK],
     r_calls = [Call_lckrules, Call_wait, Call_lckrules, Call_wait]\<rparr>"
  by (simp add: smb_lock_range_def smb_lock_range_lckrules_def smb_lock_create_def
        smb_lock_range_overlap_def smb_lock_wait_def SMB_LOCK_INDEFINITE_WAIT_def
        smb_lock_range_failure_status_def ex_env_def ex_simps)

lemma ex_granted:
  "smb_lock_range ex_defs (ex_request 2) ex_file (ex_node [ex_lock 3 SMB_LOCK_TYPE_READWRITE 0 100])
     50 100 5000 SMB_LOCK_TYPE_READWRITE
     [ex_wakeup False [ex_lock 5 SMB_LOCK_TYPE_READWRITE 0 10] SMB_REQ_STATE_WAITING_LOCK] =
   Returns \<lparr>r_status = NT_STATUS_SUCCESS, r_sr = ex_request 2,
     r_node = ex_node [ex_lock 5 SMB_LOCK_TYPE_READWRITE 0 10,
                smb_lock_create ex_defs (ex_request 2) 50 100 SMB_LOCK_TYPE_READWRITE 5000],
     r_file = ex_file,
     r_env = [],
     r_calls = [Call_lckrules, Call_wait, Call_lckrules]\<rparr>"
  by (simp add: smb_lock_range_def smb_lock_range_lckrules_def smb_lock_create_def
        smb_lock_range_overlap_def smb_lock_wait_def SMB_LOCK_INDEFINITE_WAIT_def
        smb_lock_range_failure_status_def ex_env_def ex_simps)

section \<open>The claims\<close>

subsection \<open>C1: grant rules\<close>

text \<open>
  C1. \<^verbatim>\<open>smb_lock_range_lckrules\<close> walks the lock list in list order. It passes over a member
  that does not overlap the candidate, a member that overlaps when member and candidate are
  both shared, and an exclusive member that overlaps a shared candidate when the member has
  the owner of the request (open file, session, process and user all equal). At the first
  member that is none of these it stops and reports that member with
  \<^verbatim>\<open>NT_STATUS_LOCK_NOT_GRANTED\<close>. The candidate is granted exactly when the scan runs (the file
  is open) and ends with no such member.
\<close>

theorem lckrules_first_conflict:
  "smb_lock_range_lckrules sr file node dlock =
     (if \<not> f_is_open file then (NT_STATUS_RANGE_NOT_LOCKED, None)
      else case find (\<lambda>m. \<not> spec_grant_skip sr dlock m) (n_lock_list node) of
             None \<Rightarrow> (NT_STATUS_SUCCESS, None)
           | Some c \<Rightarrow> (NT_STATUS_LOCK_NOT_GRANTED, Some c)) \<and>
   (fst (smb_lock_range_lckrules sr file node dlock) = NT_STATUS_SUCCESS) =
     (f_is_open file \<and> (\<forall>m \<in> set (n_lock_list node). spec_grant_skip sr dlock m))"
proof -
  have "(find (\<lambda>m. \<not> spec_grant_skip sr dlock m) (n_lock_list node) = None) =
      (\<forall>m \<in> set (n_lock_list node). spec_grant_skip sr dlock m)"
    by (auto simp: find_None_iff)
  then show ?thesis
    by (auto simp: smb_lock_range_lckrules_def lckrules_loop_find split: option.splits)
qed

text \<open>
  The rules at a list with a member of each kind: one that does not overlap, a shared one, an
  exclusive one of the same owner, then an exclusive one of another owner, which is reported;
  without the last, the candidate is granted.
\<close>

theorem lckrules_first_conflict_witness:
  "smb_lock_range_lckrules (ex_request 1) ex_file
     (ex_node [ex_lock 2 SMB_LOCK_TYPE_READWRITE 500 10,
               ex_lock 2 SMB_LOCK_TYPE_READONLY 0 100,
               ex_lock 1 SMB_LOCK_TYPE_READWRITE 50 10,
               ex_lock 2 SMB_LOCK_TYPE_READWRITE 60 10,
               ex_lock 3 SMB_LOCK_TYPE_READWRITE 0 10])
     (ex_lock 1 SMB_LOCK_TYPE_READONLY 0 100) =
     (NT_STATUS_LOCK_NOT_GRANTED, Some (ex_lock 2 SMB_LOCK_TYPE_READWRITE 60 10)) \<and>
   smb_lock_range_lckrules (ex_request 1) ex_file
     (ex_node [ex_lock 2 SMB_LOCK_TYPE_READWRITE 500 10,
               ex_lock 2 SMB_LOCK_TYPE_READONLY 0 100,
               ex_lock 1 SMB_LOCK_TYPE_READWRITE 50 10])
     (ex_lock 1 SMB_LOCK_TYPE_READONLY 0 100) = (NT_STATUS_SUCCESS, None)"
  using lckrules_first_conflict [of "ex_request 1" ex_file
      "ex_node [ex_lock 2 SMB_LOCK_TYPE_READWRITE 500 10,
               ex_lock 2 SMB_LOCK_TYPE_READONLY 0 100,
               ex_lock 1 SMB_LOCK_TYPE_READWRITE 50 10,
               ex_lock 2 SMB_LOCK_TYPE_READWRITE 60 10,
               ex_lock 3 SMB_LOCK_TYPE_READWRITE 0 10]"
      "ex_lock 1 SMB_LOCK_TYPE_READONLY 0 100"]
    lckrules_first_conflict [of "ex_request 1" ex_file
      "ex_node [ex_lock 2 SMB_LOCK_TYPE_READWRITE 500 10,
               ex_lock 2 SMB_LOCK_TYPE_READONLY 0 100,
               ex_lock 1 SMB_LOCK_TYPE_READWRITE 50 10]"
      "ex_lock 1 SMB_LOCK_TYPE_READONLY 0 100"]
  by (simp add: spec_grant_skip_def spec_same_owner_def smb_lock_range_overlap_def ex_simps)

subsection \<open>C2: the status of a conflict\<close>

text \<open>
  C2. On the failure path of \<^verbatim>\<open>smb_lock_range\<close>, when the loop ends with
  \<^verbatim>\<open>NT_STATUS_LOCK_NOT_GRANTED\<close>, the status returned is \<^verbatim>\<open>NT_STATUS_FILE_LOCK_CONFLICT\<close> if
  and only if the timeout is not 0, or the start of the range is at least \<^verbatim>\<open>0xEF000000\<close> with
  bit 63 clear, or the marker of the file is valid and equals the start; otherwise it stays
  \<^verbatim>\<open>NT_STATUS_LOCK_NOT_GRANTED\<close>. The first part is the block of lines 444 to 474 for any
  timeout, the second the call as a whole. (In a call the loop ends with that status only
  when the timeout is 0: \<open>loop_timeout_never_conflict\<close>.)
\<close>

theorem lock_range_status_refinement:
  "smb_lock_range_failure_status K NT_STATUS_LOCK_NOT_GRANTED timeout lock file' =
     spec_refined_status K timeout (l_start lock) file' \<and>
   (smb_lock_range_loop K sr file node (smb_lock_create K sr start length' locktype timeout)
       timeout env [] = Returns (NT_STATUS_LOCK_NOT_GRANTED, sr', node', file', env', calls) \<longrightarrow>
    smb_lock_range K sr file node start length' timeout locktype env =
      Returns \<lparr>r_status = spec_refined_status K timeout start file',
               r_sr = sr', r_node = node',
               r_file = file'\<lparr>f_llf_pos := start,
                              f_flags := f_flags file' OR SMB_OFLAGS_LLF_POS_VALID K\<rparr>,
               r_env = env', r_calls = calls\<rparr>)"
  by (simp add: failure_status_conflict spec_refined_status_def smb_lock_range_def Let_def)

text \<open>
  Two calls with timeout 0 and no marker against an exclusive lock of another owner: at
  start \<^verbatim>\<open>0xF0000000\<close> the status is \<^verbatim>\<open>NT_STATUS_FILE_LOCK_CONFLICT\<close>, at start 1000 it is
  \<^verbatim>\<open>NT_STATUS_LOCK_NOT_GRANTED\<close>.
\<close>

theorem lock_range_status_refinement_witness:
  "smb_lock_range_loop ex_defs (ex_request 2) ex_file
     (ex_node [ex_lock 3 SMB_LOCK_TYPE_READWRITE 0xF0000000 100])
     (smb_lock_create ex_defs (ex_request 2) 0xF0000000 100 SMB_LOCK_TYPE_READONLY 0) 0 [] [] =
     Returns (NT_STATUS_LOCK_NOT_GRANTED, ex_request 2,
       ex_node [ex_lock 3 SMB_LOCK_TYPE_READWRITE 0xF0000000 100], ex_file, [], [Call_lckrules]) \<and>
   smb_lock_range ex_defs (ex_request 2) ex_file
     (ex_node [ex_lock 3 SMB_LOCK_TYPE_READWRITE 0xF0000000 100])
     0xF0000000 100 0 SMB_LOCK_TYPE_READONLY [] =
     Returns \<lparr>r_status = NT_STATUS_FILE_LOCK_CONFLICT, r_sr = ex_request 2,
       r_node = ex_node [ex_lock 3 SMB_LOCK_TYPE_READWRITE 0xF0000000 100],
       r_file = \<lparr>f_is_open = True, f_flags = 8, f_llf_pos = 0xF0000000\<rparr>,
       r_env = [], r_calls = [Call_lckrules]\<rparr> \<and>
   smb_lock_range_loop ex_defs (ex_request 2) ex_file
     (ex_node [ex_lock 3 SMB_LOCK_TYPE_READWRITE 1000 100])
     (smb_lock_create ex_defs (ex_request 2) 1000 100 SMB_LOCK_TYPE_READONLY 0) 0 [] [] =
     Returns (NT_STATUS_LOCK_NOT_GRANTED, ex_request 2,
       ex_node [ex_lock 3 SMB_LOCK_TYPE_READWRITE 1000 100], ex_file, [], [Call_lckrules]) \<and>
   smb_lock_range ex_defs (ex_request 2) ex_file
     (ex_node [ex_lock 3 SMB_LOCK_TYPE_READWRITE 1000 100])
     1000 100 0 SMB_LOCK_TYPE_READONLY [] =
     Returns \<lparr>r_status = NT_STATUS_LOCK_NOT_GRANTED, r_sr = ex_request 2,
       r_node = ex_node [ex_lock 3 SMB_LOCK_TYPE_READWRITE 1000 100],
       r_file = \<lparr>f_is_open = True, f_flags = 8, f_llf_pos = 1000\<rparr>,
       r_env = [], r_calls = [Call_lckrules]\<rparr>"
proof -
  have hi: "smb_lock_range_loop ex_defs (ex_request 2) ex_file
     (ex_node [ex_lock 3 SMB_LOCK_TYPE_READWRITE 0xF0000000 100])
     (smb_lock_create ex_defs (ex_request 2) 0xF0000000 100 SMB_LOCK_TYPE_READONLY 0) 0 [] [] =
     Returns (NT_STATUS_LOCK_NOT_GRANTED, ex_request 2,
       ex_node [ex_lock 3 SMB_LOCK_TYPE_READWRITE 0xF0000000 100], ex_file, [], [Call_lckrules])"
    by (simp add: loop_no_timeout ex_conflict_rules)
  have lo: "smb_lock_range_loop ex_defs (ex_request 2) ex_file
     (ex_node [ex_lock 3 SMB_LOCK_TYPE_READWRITE 1000 100])
     (smb_lock_create ex_defs (ex_request 2) 1000 100 SMB_LOCK_TYPE_READONLY 0) 0 [] [] =
     Returns (NT_STATUS_LOCK_NOT_GRANTED, ex_request 2,
       ex_node [ex_lock 3 SMB_LOCK_TYPE_READWRITE 1000 100], ex_file, [], [Call_lckrules])"
    by (simp add: loop_no_timeout ex_conflict_rules)
  have b: "\<not> bit (0xF0000000 :: uint64_t) 63"
    by (simp add: bit_iff_odd)
  have s1: "spec_refined_status ex_defs 0 0xF0000000 ex_file = NT_STATUS_FILE_LOCK_CONFLICT"
    using b by (simp add: spec_refined_status_def ex_simps)
  have s2: "spec_refined_status ex_defs 0 1000 ex_file = NT_STATUS_LOCK_NOT_GRANTED"
    by (simp add: spec_refined_status_def ex_simps)
  from lock_range_status_refinement [of ex_defs 0 "ex_lock 3 SMB_LOCK_TYPE_READWRITE 0 0" ex_file
      "ex_request 2" ex_file "ex_node [ex_lock 3 SMB_LOCK_TYPE_READWRITE 0xF0000000 100]"
      "0xF0000000" 100 SMB_LOCK_TYPE_READONLY "[]" "ex_request 2"
      "ex_node [ex_lock 3 SMB_LOCK_TYPE_READWRITE 0xF0000000 100]" "[]" "[Call_lckrules]"] hi
  have r1: "smb_lock_range ex_defs (ex_request 2) ex_file
     (ex_node [ex_lock 3 SMB_LOCK_TYPE_READWRITE 0xF0000000 100])
     0xF0000000 100 0 SMB_LOCK_TYPE_READONLY [] =
     Returns \<lparr>r_status = NT_STATUS_FILE_LOCK_CONFLICT, r_sr = ex_request 2,
       r_node = ex_node [ex_lock 3 SMB_LOCK_TYPE_READWRITE 0xF0000000 100],
       r_file = \<lparr>f_is_open = True, f_flags = 8, f_llf_pos = 0xF0000000\<rparr>,
       r_env = [], r_calls = [Call_lckrules]\<rparr>"
    by (simp add: s1) (simp add: ex_simps)
  from lock_range_status_refinement [of ex_defs 0 "ex_lock 3 SMB_LOCK_TYPE_READWRITE 0 0" ex_file
      "ex_request 2" ex_file "ex_node [ex_lock 3 SMB_LOCK_TYPE_READWRITE 1000 100]"
      1000 100 SMB_LOCK_TYPE_READONLY "[]" "ex_request 2"
      "ex_node [ex_lock 3 SMB_LOCK_TYPE_READWRITE 1000 100]" "[]" "[Call_lckrules]"] lo
  have r2: "smb_lock_range ex_defs (ex_request 2) ex_file
     (ex_node [ex_lock 3 SMB_LOCK_TYPE_READWRITE 1000 100])
     1000 100 0 SMB_LOCK_TYPE_READONLY [] =
     Returns \<lparr>r_status = NT_STATUS_LOCK_NOT_GRANTED, r_sr = ex_request 2,
       r_node = ex_node [ex_lock 3 SMB_LOCK_TYPE_READWRITE 1000 100],
       r_file = \<lparr>f_is_open = True, f_flags = 8, f_llf_pos = 1000\<rparr>,
       r_env = [], r_calls = [Call_lckrules]\<rparr>"
    by (simp add: s2) (simp add: ex_simps)
  from hi lo r1 r2 show ?thesis by simp
qed

subsection \<open>C3: overlap and the intervals\<close>

text \<open>
  C3. The claim: \<^verbatim>\<open>smb_lock_range_overlap\<close> is false when either range has length 0, and
  otherwise true exactly when the intervals from start to start + length intersect. The code
  adds start and length in \<^verbatim>\<open>uint64_t\<close>, and for a lock on the last byte,
  start \<^verbatim>\<open>0xFFFFFFFFFFFFFFFF\<close> and length 1, the sum is 0: the function answers that this
  range does not overlap itself. (Without wrap-around the function is right:
  \<open>smb_lock_range_overlap_no_wrap\<close>.)
\<close>

theorem overlap_last_byte:
  "smb_lock_range_overlap (ex_lock 1 SMB_LOCK_TYPE_READWRITE 0xFFFFFFFFFFFFFFFF 1)
     0xFFFFFFFFFFFFFFFF 1 = False"
  by (simp add: smb_lock_range_overlap_def ex_lock_def)

subsection \<open>C4: overlap is symmetric\<close>

text \<open>
  C4. The claim: the overlap of two ranges does not depend on which of them is the lock and
  which the request, also when start + length wraps around \<open>2 ^ 64\<close>. In the code the range
  from 1 of length \<^verbatim>\<open>0xFFFFFFFFFFFFFFFF\<close> overlaps the lock from 1 of length 1, and the range
  from 1 of length 1 does not overlap the lock from 1 of length \<^verbatim>\<open>0xFFFFFFFFFFFFFFFF\<close>, whose
  end is 0 in \<^verbatim>\<open>uint64_t\<close>. (Without wrap-around the function is symmetric:
  \<open>smb_lock_range_overlap_sym_no_wrap\<close>.)
\<close>

theorem overlap_not_symmetric:
  "smb_lock_range_overlap (ex_lock 1 SMB_LOCK_TYPE_READWRITE 1 1) 1 0xFFFFFFFFFFFFFFFF = True \<and>
   smb_lock_range_overlap (ex_lock 1 SMB_LOCK_TYPE_READWRITE 1 0xFFFFFFFFFFFFFFFF) 1 1 = False"
  by (simp add: smb_lock_range_overlap_def ex_lock_def word_less_nat_alt)

subsection \<open>C5: a request with timeout 0\<close>

text \<open>
  C5, as amended. A call of \<^verbatim>\<open>smb_lock_range\<close> with timeout 0 returns, whatever the lock list
  and whatever wake-ups there are: it applies the rules once, never calls
  \<^verbatim>\<open>smb_lock_wait\<close> and uses no wake-up. It returns \<^verbatim>\<open>NT_STATUS_SUCCESS\<close> when the rules
  grant, \<^verbatim>\<open>NT_STATUS_RANGE_NOT_LOCKED\<close> when the rules find the file closed, and a conflict
  status when the rules report a conflicting lock.
\<close>

theorem lock_range_no_timeout:
  "\<exists>res. smb_lock_range K sr file node start length' 0 locktype env = Returns res \<and>
     r_calls res = [Call_lckrules] \<and> r_env res = env \<and>
     (fst (smb_lock_range_lckrules sr file node (smb_lock_create K sr start length' locktype 0)) =
        NT_STATUS_SUCCESS \<longrightarrow> r_status res = NT_STATUS_SUCCESS) \<and>
     (fst (smb_lock_range_lckrules sr file node (smb_lock_create K sr start length' locktype 0)) =
        NT_STATUS_RANGE_NOT_LOCKED \<longrightarrow> r_status res = NT_STATUS_RANGE_NOT_LOCKED) \<and>
     (fst (smb_lock_range_lckrules sr file node (smb_lock_create K sr start length' locktype 0)) =
        NT_STATUS_LOCK_NOT_GRANTED \<longrightarrow> spec_conflict_status (r_status res)) \<and>
     (fst (smb_lock_range_lckrules sr file node (smb_lock_create K sr start length' locktype 0)) =
        NT_STATUS_RANGE_NOT_LOCKED) = (\<not> f_is_open file) \<and>
     fst (smb_lock_range_lckrules sr file node (smb_lock_create K sr start length' locktype 0)) \<in>
       {NT_STATUS_SUCCESS, NT_STATUS_RANGE_NOT_LOCKED, NT_STATUS_LOCK_NOT_GRANTED}"
proof -
  let ?lock = "smb_lock_create K sr start length' locktype 0"
  let ?raw = "fst (smb_lock_range_lckrules sr file node ?lock)"
  note shape = lckrules_shape [of sr "file" node ?lock]
  have closed: "(?raw = NT_STATUS_RANGE_NOT_LOCKED) = (\<not> f_is_open file)"
    by (simp add: smb_lock_range_lckrules_def lckrules_loop_find split: option.splits)
  have conflict: "spec_conflict_status (smb_lock_range_failure_status K NT_STATUS_LOCK_NOT_GRANTED 0 ?lock file)"
    by (simp add: failure_status_conflict spec_conflict_status_def)
  show ?thesis
    using shape closed conflict
    by (auto simp: smb_lock_range_def Let_def loop_no_timeout failure_status_other)
qed

text \<open>
  The claim as written has only success and the conflict statuses. On a file that is no
  longer open the call returns \<^verbatim>\<open>NT_STATUS_RANGE_NOT_LOCKED\<close>, which is neither.
\<close>

theorem lock_range_no_timeout_counterexample:
  "smb_lock_range ex_defs (ex_request 2) ex_closed_file (ex_node []) 0 10 0
     SMB_LOCK_TYPE_READWRITE [] =
     Returns \<lparr>r_status = NT_STATUS_RANGE_NOT_LOCKED, r_sr = ex_request 2, r_node = ex_node [],
       r_file = \<lparr>f_is_open = False, f_flags = 8, f_llf_pos = 0\<rparr>,
       r_env = [], r_calls = [Call_lckrules]\<rparr> \<and>
   NT_STATUS_RANGE_NOT_LOCKED \<noteq> NT_STATUS_SUCCESS \<and>
   \<not> spec_conflict_status NT_STATUS_RANGE_NOT_LOCKED"
  by (simp add: smb_lock_range_def loop_no_timeout smb_lock_range_lckrules_def
        failure_status_other spec_conflict_status_def ex_closed_file_def ex_simps)

text \<open>
  The amended statement at a request that conflicts with an exclusive lock of another
  owner.
\<close>

theorem lock_range_no_timeout_witness:
  "\<exists>res. smb_lock_range ex_defs (ex_request 2) ex_file
       (ex_node [ex_lock 3 SMB_LOCK_TYPE_READWRITE 1000 100]) 1000 100 0
       SMB_LOCK_TYPE_READONLY [] = Returns res \<and>
     r_calls res = [Call_lckrules] \<and> r_env res = [] \<and> spec_conflict_status (r_status res)"
  using lock_range_no_timeout [of ex_defs "ex_request 2" ex_file
      "ex_node [ex_lock 3 SMB_LOCK_TYPE_READWRITE 1000 100]" 1000 100 SMB_LOCK_TYPE_READONLY "[]"]
  by (simp add: ex_conflict_rules) blast

subsection \<open>C6: unlock\<close>

text \<open>
  C6. \<^verbatim>\<open>smb_unlock_range\<close> succeeds if and only if some lock of the list has the start, the
  length and the four ids of the request. It then unlinks the first such lock, that one and
  no other, and the list keeps its other members in their order. When no lock matches it
  returns \<^verbatim>\<open>NT_STATUS_RANGE_NOT_LOCKED\<close> and leaves the node as it is.
\<close>

theorem unlock_exact_match:
  "((\<exists>m \<in> set (n_lock_list node). spec_unlock_match sr start length' m) \<longrightarrow>
      (\<exists>k. k < length (n_lock_list node) \<and>
           spec_unlock_match sr start length' (n_lock_list node ! k) \<and>
           (\<forall>j < k. \<not> spec_unlock_match sr start length' (n_lock_list node ! j)) \<and>
           smb_unlock_range sr node start length' =
             Returns (NT_STATUS_SUCCESS,
               node\<lparr>n_lock_list := take k (n_lock_list node) @ drop (Suc k) (n_lock_list node)\<rparr>))) \<and>
   (\<not> (\<exists>m \<in> set (n_lock_list node). spec_unlock_match sr start length' m) \<longrightarrow>
      smb_unlock_range sr node start length' = Returns (NT_STATUS_RANGE_NOT_LOCKED, node))"
proof (intro conjI impI)
  assume "\<exists>m \<in> set (n_lock_list node). spec_unlock_match sr start length' m"
  from ulckrules_loop_some [OF this, of 0] obtain k where k: "k < length (n_lock_list node)"
    "spec_unlock_match sr start length' (n_lock_list node ! k)"
    "\<forall>j < k. \<not> spec_unlock_match sr start length' (n_lock_list node ! j)"
    "smb_lock_range_ulckrules_loop sr start length' (n_lock_list node) 0 = (NT_STATUS_SUCCESS, Some (0 + k))"
    by blast
  have "smb_unlock_range sr node start length' =
      Returns (NT_STATUS_SUCCESS,
        node\<lparr>n_lock_list := take k (n_lock_list node) @ drop (Suc k) (n_lock_list node)\<rparr>)"
    using k(4) by (simp add: smb_unlock_range_def smb_lock_range_ulckrules_def smb_llist_remove_def)
  with k(1,2,3) show "\<exists>k. k < length (n_lock_list node) \<and>
           spec_unlock_match sr start length' (n_lock_list node ! k) \<and>
           (\<forall>j < k. \<not> spec_unlock_match sr start length' (n_lock_list node ! j)) \<and>
           smb_unlock_range sr node start length' =
             Returns (NT_STATUS_SUCCESS,
               node\<lparr>n_lock_list := take k (n_lock_list node) @ drop (Suc k) (n_lock_list node)\<rparr>)"
    by blast
next
  assume "\<not> (\<exists>m \<in> set (n_lock_list node). spec_unlock_match sr start length' m)"
  then have "\<forall>m \<in> set (n_lock_list node). \<not> spec_unlock_match sr start length' m" by simp
  from ulckrules_loop_none [OF this, of 0]
  show "smb_unlock_range sr node start length' = Returns (NT_STATUS_RANGE_NOT_LOCKED, node)"
    by (simp add: smb_unlock_range_def smb_lock_range_ulckrules_def)
qed

text \<open>
  A list with a lock of another owner and two equal locks of the request: the first of the
  two is unlinked. A list whose locks differ from the request in the owner, the length or the
  start: nothing is unlinked.
\<close>

theorem unlock_exact_match_witness:
  "smb_unlock_range (ex_request 1)
     (ex_node [ex_lock 2 SMB_LOCK_TYPE_READWRITE 0 100,
               ex_lock 1 SMB_LOCK_TYPE_READWRITE 0 100,
               ex_lock 1 SMB_LOCK_TYPE_READWRITE 0 100]) 0 100 =
     Returns (NT_STATUS_SUCCESS,
       ex_node [ex_lock 2 SMB_LOCK_TYPE_READWRITE 0 100,
                ex_lock 1 SMB_LOCK_TYPE_READWRITE 0 100]) \<and>
   smb_unlock_range (ex_request 1)
     (ex_node [ex_lock 2 SMB_LOCK_TYPE_READWRITE 0 100,
               ex_lock 1 SMB_LOCK_TYPE_READWRITE 0 99,
               ex_lock 1 SMB_LOCK_TYPE_READWRITE 1 100]) 0 100 =
     Returns (NT_STATUS_RANGE_NOT_LOCKED,
       ex_node [ex_lock 2 SMB_LOCK_TYPE_READWRITE 0 100,
               ex_lock 1 SMB_LOCK_TYPE_READWRITE 0 99,
               ex_lock 1 SMB_LOCK_TYPE_READWRITE 1 100])"
proof -
  let ?held = "ex_node [ex_lock 2 SMB_LOCK_TYPE_READWRITE 0 100,
               ex_lock 1 SMB_LOCK_TYPE_READWRITE 0 100,
               ex_lock 1 SMB_LOCK_TYPE_READWRITE 0 100]"
  let ?other = "ex_node [ex_lock 2 SMB_LOCK_TYPE_READWRITE 0 100,
               ex_lock 1 SMB_LOCK_TYPE_READWRITE 0 99,
               ex_lock 1 SMB_LOCK_TYPE_READWRITE 1 100]"
  have m0: "\<not> spec_unlock_match (ex_request 1) 0 100 (n_lock_list ?held ! 0)"
    and m1: "spec_unlock_match (ex_request 1) 0 100 (n_lock_list ?held ! 1)"
    by (simp_all add: spec_unlock_match_def spec_same_owner_def ex_simps)
  have some: "\<exists>m \<in> set (n_lock_list ?held). spec_unlock_match (ex_request 1) 0 100 m"
    by (simp add: spec_unlock_match_def spec_same_owner_def ex_simps)
  have none: "\<not> (\<exists>m \<in> set (n_lock_list ?other). spec_unlock_match (ex_request 1) 0 100 m)"
    by (simp add: spec_unlock_match_def spec_same_owner_def ex_simps)
  from unlock_exact_match [of ?held "ex_request 1" 0 100] some
  obtain k where k: "k < length (n_lock_list ?held)"
    "spec_unlock_match (ex_request 1) 0 100 (n_lock_list ?held ! k)"
    "\<forall>j < k. \<not> spec_unlock_match (ex_request 1) 0 100 (n_lock_list ?held ! j)"
    "smb_unlock_range (ex_request 1) ?held 0 100 =
       Returns (NT_STATUS_SUCCESS,
         ?held\<lparr>n_lock_list := take k (n_lock_list ?held) @ drop (Suc k) (n_lock_list ?held)\<rparr>)"
    by blast
  have "k = 1"
  proof (rule ccontr)
    assume "k \<noteq> 1"
    then have "k = 0 \<or> 1 < k" by arith
    with k(2,3) m0 m1 show False by auto
  qed
  with k(4) have a: "smb_unlock_range (ex_request 1) ?held 0 100 =
     Returns (NT_STATUS_SUCCESS,
       ex_node [ex_lock 2 SMB_LOCK_TYPE_READWRITE 0 100,
                ex_lock 1 SMB_LOCK_TYPE_READWRITE 0 100])"
    by (simp add: ex_node_def)
  from unlock_exact_match [of ?other "ex_request 1" 0 100] none
  have b: "smb_unlock_range (ex_request 1) ?other 0 100 = Returns (NT_STATUS_RANGE_NOT_LOCKED, ?other)"
    by blast
  from a b show ?thesis by simp
qed

subsection \<open>C7: access check\<close>

text \<open>
  C7. For a desired access that is exactly read or exactly write,
  \<^verbatim>\<open>smb_lock_range_access\<close> passes over a member that does not overlap the range, a shared
  member that overlaps when the access is read, and an exclusive member that overlaps when
  its session and process are those of the request. At the first other member it stops with
  \<^verbatim>\<open>NT_STATUS_FILE_LOCK_CONFLICT\<close>; it returns \<^verbatim>\<open>NT_STATUS_SUCCESS\<close> exactly when no member
  stops it. The open file and the user of the request do not change the answer.
\<close>

theorem access_first_conflict:
  assumes "FILE_READ_DATA K \<noteq> 0" and "FILE_WRITE_DATA K \<noteq> 0"
    and "desired_access = FILE_READ_DATA K \<or> desired_access = FILE_WRITE_DATA K"
  shows "smb_lock_range_access K sr node start length' desired_access =
       Returns (case find (\<lambda>m. \<not> spec_access_skip K sr start length' desired_access m)
                       (n_lock_list node) of
                  None \<Rightarrow> NT_STATUS_SUCCESS
                | Some c \<Rightarrow> NT_STATUS_FILE_LOCK_CONFLICT) \<and>
     (smb_lock_range_access K sr node start length' desired_access = Returns NT_STATUS_SUCCESS) =
       (\<forall>m \<in> set (n_lock_list node). spec_access_skip K sr start length' desired_access m) \<and>
     smb_lock_range_access K (sr\<lparr>fid_ofile := f, smb_uid := u\<rparr>) node start length' desired_access =
       smb_lock_range_access K sr node start length' desired_access"
proof -
  have a: "desired_access AND NOT (FILE_READ_DATA K OR FILE_WRITE_DATA K) = 0"
    "desired_access AND (FILE_READ_DATA K OR FILE_WRITE_DATA K) \<noteq> 0"
    using access_asserts_hold [OF assms] by simp_all
  have eq: "smb_lock_range_access K sr' node start length' desired_access =
      Returns (smb_lock_range_access_loop K sr' start length' desired_access (n_lock_list node))"
    for sr'
    using a by (simp add: smb_lock_range_access_def)
  have n: "(find (\<lambda>m. \<not> spec_access_skip K sr start length' desired_access m) (n_lock_list node) = None) =
      (\<forall>m \<in> set (n_lock_list node). spec_access_skip K sr start length' desired_access m)"
    by (auto simp: find_None_iff)
  have s: "spec_access_skip K (sr\<lparr>fid_ofile := f, smb_uid := u\<rparr>) start length' desired_access =
      spec_access_skip K sr start length' desired_access"
    by (simp add: spec_access_skip_def spec_loose_owner_def fun_eq_iff)
  show ?thesis
    using n by (auto simp: eq access_loop_find s split: option.splits)
qed

text \<open>
  A request that shares session and process with an exclusive lock, but not the open file
  and the user: read access stops at an exclusive lock of another session, succeeds without
  it, and write access stops at a shared lock.
\<close>

theorem access_first_conflict_witness:
  "FILE_READ_DATA ex_defs \<noteq> 0 \<and> FILE_WRITE_DATA ex_defs \<noteq> 0 \<and>
   smb_lock_range_access ex_defs ex_other_handle
     (ex_node [ex_lock 2 SMB_LOCK_TYPE_READWRITE 500 10,
               ex_lock 1 SMB_LOCK_TYPE_READWRITE 0 10,
               ex_lock 2 SMB_LOCK_TYPE_READONLY 20 10,
               ex_lock 2 SMB_LOCK_TYPE_READWRITE 40 10])
     0 100 (FILE_READ_DATA ex_defs) = Returns NT_STATUS_FILE_LOCK_CONFLICT \<and>
   smb_lock_range_access ex_defs ex_other_handle
     (ex_node [ex_lock 2 SMB_LOCK_TYPE_READWRITE 500 10,
               ex_lock 1 SMB_LOCK_TYPE_READWRITE 0 10,
               ex_lock 2 SMB_LOCK_TYPE_READONLY 20 10])
     0 100 (FILE_READ_DATA ex_defs) = Returns NT_STATUS_SUCCESS \<and>
   smb_lock_range_access ex_defs ex_other_handle
     (ex_node [ex_lock 2 SMB_LOCK_TYPE_READWRITE 500 10,
               ex_lock 1 SMB_LOCK_TYPE_READWRITE 0 10,
               ex_lock 1 SMB_LOCK_TYPE_READONLY 20 10])
     0 100 (FILE_WRITE_DATA ex_defs) = Returns NT_STATUS_FILE_LOCK_CONFLICT"
proof -
  have r: "FILE_READ_DATA ex_defs \<noteq> 0" and w: "FILE_WRITE_DATA ex_defs \<noteq> 0"
    by (simp_all add: ex_simps)
  have dr: "FILE_READ_DATA ex_defs = FILE_READ_DATA ex_defs \<or>
      FILE_READ_DATA ex_defs = FILE_WRITE_DATA ex_defs" by simp
  have dw: "FILE_WRITE_DATA ex_defs = FILE_READ_DATA ex_defs \<or>
      FILE_WRITE_DATA ex_defs = FILE_WRITE_DATA ex_defs" by simp
  show ?thesis
    using r w
      access_first_conflict [OF r w dr, of ex_other_handle
        "ex_node [ex_lock 2 SMB_LOCK_TYPE_READWRITE 500 10,
               ex_lock 1 SMB_LOCK_TYPE_READWRITE 0 10,
               ex_lock 2 SMB_LOCK_TYPE_READONLY 20 10,
               ex_lock 2 SMB_LOCK_TYPE_READWRITE 40 10]" 0 100]
      access_first_conflict [OF r w dr, of ex_other_handle
        "ex_node [ex_lock 2 SMB_LOCK_TYPE_READWRITE 500 10,
               ex_lock 1 SMB_LOCK_TYPE_READWRITE 0 10,
               ex_lock 2 SMB_LOCK_TYPE_READONLY 20 10]" 0 100]
      access_first_conflict [OF r w dw, of ex_other_handle
        "ex_node [ex_lock 2 SMB_LOCK_TYPE_READWRITE 500 10,
               ex_lock 1 SMB_LOCK_TYPE_READWRITE 0 10,
               ex_lock 1 SMB_LOCK_TYPE_READONLY 20 10]" 0 100]
    by (simp add: spec_access_skip_def spec_loose_owner_def smb_lock_range_overlap_def
          ex_simps ex_other_handle_def)
qed

subsection \<open>C8: the marker of the last failed lock\<close>

text \<open>
  C8. A call of \<^verbatim>\<open>smb_lock_range\<close> that returns a status other than success leaves
  \<^verbatim>\<open>f_llf_pos\<close> at the start of the requested range and the valid bit set in \<^verbatim>\<open>f_flags\<close>,
  whatever the status. A call that returns success writes nothing to the file: the file is
  as the other requests left it at the last wake-up, and as it was at the call when the call
  did not sleep.
\<close>

theorem lock_range_llf_marker:
  assumes "SMB_OFLAGS_LLF_POS_VALID K \<noteq> 0"
    and "smb_lock_range K sr file node start length' timeout locktype env = Returns res"
  shows "(r_status res \<noteq> NT_STATUS_SUCCESS \<longrightarrow>
        f_llf_pos (r_file res) = start \<and>
        f_flags (r_file res) AND SMB_OFLAGS_LLF_POS_VALID K \<noteq> 0) \<and>
     (r_status res = NT_STATUS_SUCCESS \<longrightarrow>
        r_file res = file_after file (used_wakeups env (r_env res)))"
proof -
  from lock_range_returns [OF assms(2)] obtain result sr' node' file' env' calls where
    loop: "smb_lock_range_loop K sr file node (smb_lock_create K sr start length' locktype timeout)
       timeout env [] = Returns (result, sr', node', file', env', calls)"
    and res: "res = (if result \<noteq> NT_STATUS_SUCCESS
            then \<lparr>r_status = smb_lock_range_failure_status K result timeout
                     (smb_lock_create K sr start length' locktype timeout) file',
                  r_sr = sr', r_node = node',
                  r_file = file'\<lparr>f_llf_pos := start,
                                 f_flags := f_flags file' OR SMB_OFLAGS_LLF_POS_VALID K\<rparr>,
                  r_env = env', r_calls = calls\<rparr>
            else \<lparr>r_status = NT_STATUS_SUCCESS, r_sr = sr',
                  r_node = node'\<lparr>n_lock_list := n_lock_list node' @
                             [smb_lock_create K sr start length' locktype timeout]\<rparr>,
                  r_file = file', r_env = env', r_calls = calls\<rparr>)"
    by blast
  from loop_uses_wakeups [OF loop] obtain used where
    used: "env = used @ env'" "node' = node_after node used" "file' = file_after file used"
    by blast
  have valid: "(f OR SMB_OFLAGS_LLF_POS_VALID K) AND SMB_OFLAGS_LLF_POS_VALID K \<noteq> 0" for f
  proof -
    have "(f OR SMB_OFLAGS_LLF_POS_VALID K) AND SMB_OFLAGS_LLF_POS_VALID K = SMB_OFLAGS_LLF_POS_VALID K"
      by (auto simp: bit_eq_iff bit_and_iff bit_or_iff)
    with assms(1) show ?thesis by simp
  qed
  show ?thesis
  proof (cases "result = NT_STATUS_SUCCESS")
    case True
    with res used show ?thesis by simp
  next
    case False
    with res valid show ?thesis by (simp add: failure_status_not_success)
  qed
qed

text \<open>
  A request that waits twice and times out, and one that is granted after one wake-up.
\<close>

theorem lock_range_llf_marker_witness:
  "SMB_OFLAGS_LLF_POS_VALID ex_defs \<noteq> 0 \<and>
   (\<exists>res. smb_lock_range ex_defs (ex_request 2) ex_file
        (ex_node [ex_lock 3 SMB_LOCK_TYPE_READWRITE 0 100])
        50 100 5000 SMB_LOCK_TYPE_READWRITE ex_env = Returns res \<and>
      r_status res = NT_STATUS_CANCELLED \<and>
      f_llf_pos (r_file res) = 50 \<and>
      f_flags (r_file res) AND SMB_OFLAGS_LLF_POS_VALID ex_defs \<noteq> 0) \<and>
   (\<exists>res. smb_lock_range ex_defs (ex_request 2) ex_file
        (ex_node [ex_lock 3 SMB_LOCK_TYPE_READWRITE 0 100])
        50 100 5000 SMB_LOCK_TYPE_READWRITE
        [ex_wakeup False [ex_lock 5 SMB_LOCK_TYPE_READWRITE 0 10] SMB_REQ_STATE_WAITING_LOCK] =
        Returns res \<and>
      r_status res = NT_STATUS_SUCCESS \<and> r_file res = ex_file)"
proof -
  let ?failed = "\<lparr>r_status = NT_STATUS_CANCELLED, r_sr = ex_request 2,
     r_node = ex_node [ex_lock 5 SMB_LOCK_TYPE_READWRITE 60 1],
     r_file = \<lparr>f_is_open = True, f_flags = 8, f_llf_pos = 50\<rparr>,
     r_env = [ex_wakeup False [] SMB_REQ_STATE_WAITING_LOCK],
     r_calls = [Call_lckrules, Call_wait, Call_lckrules, Call_wait]\<rparr>"
  let ?granted = "\<lparr>r_status = NT_STATUS_SUCCESS, r_sr = ex_request 2,
     r_node = ex_node [ex_lock 5 SMB_LOCK_TYPE_READWRITE 0 10,
                smb_lock_create ex_defs (ex_request 2) 50 100 SMB_LOCK_TYPE_READWRITE 5000],
     r_file = ex_file,
     r_env = [],
     r_calls = [Call_lckrules, Call_wait, Call_lckrules]\<rparr>"
  have v: "SMB_OFLAGS_LLF_POS_VALID ex_defs \<noteq> 0" by (simp add: ex_simps)
  have a: "f_llf_pos (r_file ?failed) = 50 \<and>
      f_flags (r_file ?failed) AND SMB_OFLAGS_LLF_POS_VALID ex_defs \<noteq> 0"
    using lock_range_llf_marker [OF v ex_timed_out] by simp
  have u: "file_after ex_file (used_wakeups
      [ex_wakeup False [ex_lock 5 SMB_LOCK_TYPE_READWRITE 0 10] SMB_REQ_STATE_WAITING_LOCK] []) = ex_file"
    by (simp add: file_after_def used_wakeups_def ex_wakeup_def)
  have b: "r_file ?granted = ex_file"
    using lock_range_llf_marker [OF v ex_granted] u by simp
  show ?thesis
    using v a b ex_timed_out ex_granted
    by (intro conjI exI [of _ ?failed] exI [of _ ?granted]) simp_all
qed

subsection \<open>C9: a failed request leaves the lock list alone\<close>

text \<open>
  C9. A call of \<^verbatim>\<open>smb_lock_range\<close> that returns a status other than success leaves the
  node as the other requests left it at the last wake-up (as it was at the call when the call
  did not sleep): the candidate is not in the list. Only a call that returns success appends
  the candidate.
\<close>

theorem lock_range_failure_leaves_table:
  assumes "smb_lock_range K sr file node start length' timeout locktype env = Returns res"
  shows "(r_status res \<noteq> NT_STATUS_SUCCESS \<longrightarrow>
        r_node res = node_after node (used_wakeups env (r_env res))) \<and>
     (r_status res = NT_STATUS_SUCCESS \<longrightarrow>
        n_lock_list (r_node res) =
          n_lock_list (node_after node (used_wakeups env (r_env res))) @
            [smb_lock_create K sr start length' locktype timeout])"
proof -
  from lock_range_returns [OF assms] obtain result sr' node' file' env' calls where
    loop: "smb_lock_range_loop K sr file node (smb_lock_create K sr start length' locktype timeout)
       timeout env [] = Returns (result, sr', node', file', env', calls)"
    and res: "res = (if result \<noteq> NT_STATUS_SUCCESS
            then \<lparr>r_status = smb_lock_range_failure_status K result timeout
                     (smb_lock_create K sr start length' locktype timeout) file',
                  r_sr = sr', r_node = node',
                  r_file = file'\<lparr>f_llf_pos := start,
                                 f_flags := f_flags file' OR SMB_OFLAGS_LLF_POS_VALID K\<rparr>,
                  r_env = env', r_calls = calls\<rparr>
            else \<lparr>r_status = NT_STATUS_SUCCESS, r_sr = sr',
                  r_node = node'\<lparr>n_lock_list := n_lock_list node' @
                             [smb_lock_create K sr start length' locktype timeout]\<rparr>,
                  r_file = file', r_env = env', r_calls = calls\<rparr>)"
    by blast
  from loop_uses_wakeups [OF loop] obtain used where
    used: "env = used @ env'" "node' = node_after node used" "file' = file_after file used"
    by blast
  show ?thesis
  proof (cases "result = NT_STATUS_SUCCESS")
    case True
    with res used show ?thesis by simp
  next
    case False
    with res used show ?thesis by (simp add: failure_status_not_success)
  qed
qed

text \<open>
  The same two requests: the one that times out leaves the list of its last wake-up, the one
  that is granted appends its lock to it.
\<close>

theorem lock_range_failure_leaves_table_witness:
  "(\<exists>res. smb_lock_range ex_defs (ex_request 2) ex_file
        (ex_node [ex_lock 3 SMB_LOCK_TYPE_READWRITE 0 100])
        50 100 5000 SMB_LOCK_TYPE_READWRITE ex_env = Returns res \<and>
      r_status res = NT_STATUS_CANCELLED \<and>
      r_node res = ex_node [ex_lock 5 SMB_LOCK_TYPE_READWRITE 60 1]) \<and>
   (\<exists>res. smb_lock_range ex_defs (ex_request 2) ex_file
        (ex_node [ex_lock 3 SMB_LOCK_TYPE_READWRITE 0 100])
        50 100 5000 SMB_LOCK_TYPE_READWRITE
        [ex_wakeup False [ex_lock 5 SMB_LOCK_TYPE_READWRITE 0 10] SMB_REQ_STATE_WAITING_LOCK] =
        Returns res \<and>
      r_status res = NT_STATUS_SUCCESS \<and>
      n_lock_list (r_node res) = [ex_lock 5 SMB_LOCK_TYPE_READWRITE 0 10,
        smb_lock_create ex_defs (ex_request 2) 50 100 SMB_LOCK_TYPE_READWRITE 5000])"
proof -
  let ?failed = "\<lparr>r_status = NT_STATUS_CANCELLED, r_sr = ex_request 2,
     r_node = ex_node [ex_lock 5 SMB_LOCK_TYPE_READWRITE 60 1],
     r_file = \<lparr>f_is_open = True, f_flags = 8, f_llf_pos = 50\<rparr>,
     r_env = [ex_wakeup False [] SMB_REQ_STATE_WAITING_LOCK],
     r_calls = [Call_lckrules, Call_wait, Call_lckrules, Call_wait]\<rparr>"
  let ?granted = "\<lparr>r_status = NT_STATUS_SUCCESS, r_sr = ex_request 2,
     r_node = ex_node [ex_lock 5 SMB_LOCK_TYPE_READWRITE 0 10,
                smb_lock_create ex_defs (ex_request 2) 50 100 SMB_LOCK_TYPE_READWRITE 5000],
     r_file = ex_file,
     r_env = [],
     r_calls = [Call_lckrules, Call_wait, Call_lckrules]\<rparr>"
  have u1: "node_after (ex_node [ex_lock 3 SMB_LOCK_TYPE_READWRITE 0 100])
      (used_wakeups ex_env [ex_wakeup False [] SMB_REQ_STATE_WAITING_LOCK]) =
      ex_node [ex_lock 5 SMB_LOCK_TYPE_READWRITE 60 1]"
    by (simp add: node_after_def used_wakeups_def ex_env_def ex_wakeup_def)
  have u2: "node_after (ex_node [ex_lock 3 SMB_LOCK_TYPE_READWRITE 0 100]) (used_wakeups
      [ex_wakeup False [ex_lock 5 SMB_LOCK_TYPE_READWRITE 0 10] SMB_REQ_STATE_WAITING_LOCK] []) =
      ex_node [ex_lock 5 SMB_LOCK_TYPE_READWRITE 0 10]"
    by (simp add: node_after_def used_wakeups_def ex_wakeup_def)
  have a: "r_node ?failed = ex_node [ex_lock 5 SMB_LOCK_TYPE_READWRITE 60 1]"
    using lock_range_failure_leaves_table [OF ex_timed_out] u1 by simp
  have b: "n_lock_list (r_node ?granted) = [ex_lock 5 SMB_LOCK_TYPE_READWRITE 0 10,
        smb_lock_create ex_defs (ex_request 2) 50 100 SMB_LOCK_TYPE_READWRITE 5000]"
    using lock_range_failure_leaves_table [OF ex_granted] u2 by (simp add: ex_node_def)
  show ?thesis
    using a b ex_timed_out ex_granted
    by (intro conjI exI [of _ ?failed] exI [of _ ?granted]) simp_all
qed

subsection \<open>C10: an exclusive candidate\<close>

text \<open>
  C10. An exclusive candidate is never granted while any member of the list overlaps it,
  whoever owns the member: on an open file the rules report the first overlapping member with
  \<^verbatim>\<open>NT_STATUS_LOCK_NOT_GRANTED\<close>. The exception for the same owner is for shared candidates
  only.
\<close>

theorem exclusive_candidate_conflicts:
  assumes "l_type dlock = SMB_LOCK_TYPE_READWRITE"
    and "m \<in> set (n_lock_list node)"
    and "smb_lock_range_overlap m (l_start dlock) (l_length dlock)"
  shows "fst (smb_lock_range_lckrules sr file node dlock) \<noteq> NT_STATUS_SUCCESS \<and>
     (f_is_open file \<longrightarrow>
        smb_lock_range_lckrules sr file node dlock =
          (NT_STATUS_LOCK_NOT_GRANTED,
           find (\<lambda>m. smb_lock_range_overlap m (l_start dlock) (l_length dlock)) (n_lock_list node)) \<and>
        find (\<lambda>m. smb_lock_range_overlap m (l_start dlock) (l_length dlock)) (n_lock_list node) \<noteq> None)"
proof -
  have skip: "(\<lambda>m. \<not> spec_grant_skip sr dlock m) =
      (\<lambda>m. smb_lock_range_overlap m (l_start dlock) (l_length dlock))"
    using assms(1) by (simp add: spec_grant_skip_def fun_eq_iff)
  have some: "find (\<lambda>m. smb_lock_range_overlap m (l_start dlock) (l_length dlock)) (n_lock_list node) \<noteq> None"
    using assms(2,3) by (auto simp: find_None_iff)
  then show ?thesis
    by (auto simp: smb_lock_range_lckrules_def lckrules_loop_find skip split: option.splits)
qed

text \<open>
  The owner of a shared lock asks for an exclusive lock that overlaps it.
\<close>

theorem exclusive_candidate_conflicts_witness:
  "l_type (ex_lock 1 SMB_LOCK_TYPE_READWRITE 50 100) = SMB_LOCK_TYPE_READWRITE \<and>
   ex_lock 1 SMB_LOCK_TYPE_READONLY 0 100 \<in>
     set (n_lock_list (ex_node [ex_lock 1 SMB_LOCK_TYPE_READONLY 0 100])) \<and>
   smb_lock_range_overlap (ex_lock 1 SMB_LOCK_TYPE_READONLY 0 100)
     (l_start (ex_lock 1 SMB_LOCK_TYPE_READWRITE 50 100))
     (l_length (ex_lock 1 SMB_LOCK_TYPE_READWRITE 50 100)) \<and>
   smb_lock_range_lckrules (ex_request 1) ex_file
     (ex_node [ex_lock 1 SMB_LOCK_TYPE_READONLY 0 100])
     (ex_lock 1 SMB_LOCK_TYPE_READWRITE 50 100) =
     (NT_STATUS_LOCK_NOT_GRANTED, Some (ex_lock 1 SMB_LOCK_TYPE_READONLY 0 100))"
proof -
  have h1: "l_type (ex_lock 1 SMB_LOCK_TYPE_READWRITE 50 100) = SMB_LOCK_TYPE_READWRITE"
    by (simp add: ex_simps)
  have h2: "ex_lock 1 SMB_LOCK_TYPE_READONLY 0 100 \<in>
     set (n_lock_list (ex_node [ex_lock 1 SMB_LOCK_TYPE_READONLY 0 100]))"
    by (simp add: ex_simps)
  have h3: "smb_lock_range_overlap (ex_lock 1 SMB_LOCK_TYPE_READONLY 0 100)
     (l_start (ex_lock 1 SMB_LOCK_TYPE_READWRITE 50 100))
     (l_length (ex_lock 1 SMB_LOCK_TYPE_READWRITE 50 100))"
    by (simp add: smb_lock_range_overlap_def ex_simps)
  have o: "f_is_open ex_file" by (simp add: ex_simps)
  from exclusive_candidate_conflicts [OF h1 h2 h3, of "ex_request 1" ex_file] o
  have "smb_lock_range_lckrules (ex_request 1) ex_file
     (ex_node [ex_lock 1 SMB_LOCK_TYPE_READONLY 0 100])
     (ex_lock 1 SMB_LOCK_TYPE_READWRITE 50 100) =
     (NT_STATUS_LOCK_NOT_GRANTED,
      find (\<lambda>m. smb_lock_range_overlap m (l_start (ex_lock 1 SMB_LOCK_TYPE_READWRITE 50 100))
                 (l_length (ex_lock 1 SMB_LOCK_TYPE_READWRITE 50 100)))
        (n_lock_list (ex_node [ex_lock 1 SMB_LOCK_TYPE_READONLY 0 100])))"
    by simp
  moreover have "find (\<lambda>m. smb_lock_range_overlap m (l_start (ex_lock 1 SMB_LOCK_TYPE_READWRITE 50 100))
                 (l_length (ex_lock 1 SMB_LOCK_TYPE_READWRITE 50 100)))
        (n_lock_list (ex_node [ex_lock 1 SMB_LOCK_TYPE_READONLY 0 100])) =
      Some (ex_lock 1 SMB_LOCK_TYPE_READONLY 0 100)"
    using h3 by (simp add: ex_node_def)
  ultimately show ?thesis using h1 h2 h3 by simp
qed

end
